theory Spec2Isabelle
  imports Complex_Main
begin

section \<open>Python strings\<close>

text \<open>
  A Python \<open>str\<close> is modelled as a \<open>string\<close>, one \<open>char\<close> per code point (so the
  model covers texts in the Latin-1 range). \<open>py_space\<close> is \<open>str.isspace\<close> on that
  range: TAB, LF, VT, FF, CR, FS, GS, RS, US, SPACE, NEL and NBSP.
\<close>

definition py_space :: "char \<Rightarrow> bool" where
  "py_space c = (of_char c \<in> {9::nat, 10, 11, 12, 13, 28, 29, 30, 31, 32, 133, 160})"

text \<open>\<open>s.split()\<close>: the maximal runs of non-whitespace characters, in order.
  The first argument is the word being read.\<close>

fun split_acc :: "string \<Rightarrow> string \<Rightarrow> string list" where
  "split_acc w [] = (if w = [] then [] else [w])"
| "split_acc w (c # cs) =
     (if py_space c then (if w = [] then split_acc [] cs else w # split_acc [] cs)
      else split_acc (w @ [c]) cs)"

definition py_split :: "string \<Rightarrow> string list" where
  "py_split s = split_acc [] s"

text \<open>\<open>s.strip()\<close>: leading and trailing whitespace removed.\<close>

definition py_strip :: "string \<Rightarrow> string" where
  "py_strip s = rev (dropWhile py_space (rev (dropWhile py_space s)))"

text \<open>\<open>len(s.split())\<close>, a Python int.\<close>

definition word_count :: "string \<Rightarrow> int" where
  "word_count s = int (length (py_split s))"

section \<open>rag_pipeline.py: chunk_text\<close>

text \<open>
  The loop body of \<open>chunk_text\<close>, on the pair \<open>(chunks, current_chunk)\<close>. The float
  test \<open>word_count > max_chunk_size * 1.5\<close> is written on integers as
  \<open>2 * word_count > 3 * max_chunk_size\<close>.
\<close>

definition chunk_step :: "int \<Rightarrow> int \<Rightarrow> string list \<times> string \<Rightarrow> string \<Rightarrow> string list \<times> string" where
  "chunk_step min_chunk_size max_chunk_size st sentence =
     (let chunks = fst st; current_chunk = snd st;
          potential_chunk = (if current_chunk \<noteq> [] then current_chunk @ '' '' @ sentence else sentence);
          wc = word_count potential_chunk
      in if wc \<le> max_chunk_size then (chunks, potential_chunk)
         else if word_count current_chunk \<ge> min_chunk_size
              then (chunks @ [py_strip current_chunk], sentence)
         else if 2 * wc > 3 * max_chunk_size
              then (chunks @ [py_strip potential_chunk], [])
         else (chunks, potential_chunk))"

text \<open>The statements after the loop: the last buffer is emitted, or appended to the
  last chunk when it is too small, or dropped when there is no chunk to append it to.\<close>

definition chunk_finish :: "int \<Rightarrow> string list \<times> string \<Rightarrow> string list" where
  "chunk_finish min_chunk_size st =
     (let chunks = fst st; current_chunk = snd st
      in if current_chunk \<noteq> [] \<and> word_count current_chunk \<ge> min_chunk_size
           then chunks @ [py_strip current_chunk]
         else if current_chunk \<noteq> [] \<and> chunks \<noteq> []
           then butlast chunks @ [last chunks @ '' '' @ current_chunk]
         else chunks)"

text \<open>\<open>sent_tokenize\<close> is NLTK's sentence tokenizer, a parameter of the model.\<close>

definition chunk_text :: "(string \<Rightarrow> string list) \<Rightarrow> string \<Rightarrow> int \<Rightarrow> int \<Rightarrow> string list" where
  "chunk_text sent_tokenize text min_chunk_size max_chunk_size =
     chunk_finish min_chunk_size
       (foldl (chunk_step min_chunk_size max_chunk_size) ([], []) (sent_tokenize text))"

section \<open>Word counts\<close>

lemma split_acc_length_space:
  "py_space c \<Longrightarrow>
   length (split_acc w (a @ c # b)) = length (split_acc w a) + length (split_acc [] b)"
  by (induction a arbitrary: w) auto

lemma py_space_blank: "py_space CHR '' ''"
  by (simp add: py_space_def)

lemma word_count_join: "word_count (a @ CHR '' '' # b) = word_count a + word_count b"
  using split_acc_length_space [OF py_space_blank, of "[]" a b]
  by (simp add: word_count_def py_split_def)

lemma split_acc_dropWhile:
  "length (split_acc [] (dropWhile py_space s)) = length (split_acc [] s)"
  by (induction s) auto

lemma split_acc_trailing:
  "\<forall>c \<in> set t. py_space c \<Longrightarrow> length (split_acc w (s @ t)) = length (split_acc w s)"
proof (induction s arbitrary: w)
  case Nil
  then show ?case
    by (induction t arbitrary: w) auto
next
  case (Cons c s)
  then show ?case by auto
qed

lemma rev_dropWhile_rev:
  "\<exists>t. s = rev (dropWhile P (rev s)) @ t \<and> (\<forall>c \<in> set t. P c)"
proof -
  have "rev s = takeWhile P (rev s) @ dropWhile P (rev s)" by simp
  then have "s = rev (dropWhile P (rev s)) @ rev (takeWhile P (rev s))"
    by (metis rev_append rev_rev_ident)
  moreover have "\<forall>c \<in> set (rev (takeWhile P (rev s))). P c"
    by (auto dest: set_takeWhileD)
  ultimately show ?thesis by blast
qed

lemma word_count_strip: "word_count (py_strip s) = word_count s"
proof -
  let ?d = "dropWhile py_space s"
  obtain t where t: "?d = rev (dropWhile py_space (rev ?d)) @ t" "\<forall>c \<in> set t. py_space c"
    using rev_dropWhile_rev [of ?d py_space] by blast
  have "length (split_acc [] (py_strip s)) = length (split_acc [] (py_strip s @ t))"
    using split_acc_trailing [OF t(2)] by simp
  also have "py_strip s @ t = ?d"
    using t(1) by (simp add: py_strip_def)
  finally show ?thesis
    by (simp add: word_count_def py_split_def split_acc_dropWhile)
qed

lemma word_count_nonneg: "0 \<le> word_count s"
  by (simp add: word_count_def)

section \<open>The chunker keeps the minimum size\<close>

lemma chunk_step_min:
  assumes "min_chunk_size \<le> max_chunk_size"
    and "\<forall>c \<in> set (fst st). min_chunk_size \<le> word_count c"
  shows "\<forall>c \<in> set (fst (chunk_step min_chunk_size max_chunk_size st sentence)).
           min_chunk_size \<le> word_count c"
proof -
  have nn: "0 \<le> word_count x" for x by (rule word_count_nonneg)
  show ?thesis
    using assms nn [of "snd st @ CHR '' '' # sentence"] nn [of sentence]
    by (auto simp: chunk_step_def Let_def word_count_strip)
qed

lemma chunk_loop_min:
  assumes "min_chunk_size \<le> max_chunk_size"
  shows "\<forall>c \<in> set (fst st). min_chunk_size \<le> word_count c \<Longrightarrow>
     \<forall>c \<in> set (fst (foldl (chunk_step min_chunk_size max_chunk_size) st ss)).
       min_chunk_size \<le> word_count c"
proof (induction ss arbitrary: st)
  case Nil
  then show ?case by simp
next
  case (Cons s ss)
  show ?case
    using Cons.IH [OF chunk_step_min [OF assms Cons.prems]] by simp
qed

lemma chunk_finish_min:
  assumes "\<forall>c \<in> set (fst st). min_chunk_size \<le> word_count c"
  shows "\<forall>c \<in> set (chunk_finish min_chunk_size st). min_chunk_size \<le> word_count c"
proof (cases "fst st = []")
  case True
  then show ?thesis
    by (auto simp: chunk_finish_def Let_def word_count_strip)
next
  case False
  have l: "min_chunk_size \<le> word_count (last (fst st))"
    using assms False by simp
  have b: "\<forall>c \<in> set (butlast (fst st)). min_chunk_size \<le> word_count c"
    using assms by (auto dest: in_set_butlastD)
  have j: "min_chunk_size \<le> word_count (last (fst st) @ CHR '' '' # snd st)"
    using l word_count_nonneg [of "snd st"] by (simp add: word_count_join)
  show ?thesis
    using assms b j by (auto simp: chunk_finish_def Let_def word_count_strip)
qed

lemma chunk_step_bounds:
  assumes "1 \<le> min_chunk_size" and "min_chunk_size \<le> max_chunk_size"
    and "word_count sentence \<le> max_chunk_size - min_chunk_size + 1"
    and "\<forall>c \<in> set (fst st). min_chunk_size \<le> word_count c \<and> word_count c \<le> max_chunk_size"
    and "word_count (snd st) \<le> max_chunk_size"
  shows "(\<forall>c \<in> set (fst (chunk_step min_chunk_size max_chunk_size st sentence)).
            min_chunk_size \<le> word_count c \<and> word_count c \<le> max_chunk_size) \<and>
         word_count (snd (chunk_step min_chunk_size max_chunk_size st sentence)) \<le> max_chunk_size"
proof (cases "snd st = []")
  case True
  then show ?thesis
    using assms by (auto simp: chunk_step_def Let_def)
next
  case False
  have j: "word_count (snd st @ CHR '' '' # sentence) = word_count (snd st) + word_count sentence"
    by (rule word_count_join)
  show ?thesis
    using assms False j by (auto simp: chunk_step_def Let_def word_count_strip)
qed

lemma chunk_loop_bounds:
  assumes "1 \<le> min_chunk_size" and "min_chunk_size \<le> max_chunk_size"
  shows "\<forall>s \<in> set ss. word_count s \<le> max_chunk_size - min_chunk_size + 1 \<Longrightarrow>
     \<forall>c \<in> set (fst st). min_chunk_size \<le> word_count c \<and> word_count c \<le> max_chunk_size \<Longrightarrow>
     word_count (snd st) \<le> max_chunk_size \<Longrightarrow>
     (\<forall>c \<in> set (fst (foldl (chunk_step min_chunk_size max_chunk_size) st ss)).
        min_chunk_size \<le> word_count c \<and> word_count c \<le> max_chunk_size) \<and>
     word_count (snd (foldl (chunk_step min_chunk_size max_chunk_size) st ss)) \<le> max_chunk_size"
proof (induction ss arbitrary: st)
  case Nil
  then show ?case by simp
next
  case (Cons s ss)
  have s: "word_count s \<le> max_chunk_size - min_chunk_size + 1"
    using Cons.prems(1) by simp
  have rest: "\<forall>x \<in> set ss. word_count x \<le> max_chunk_size - min_chunk_size + 1"
    using Cons.prems(1) by simp
  note step = chunk_step_bounds [OF assms s Cons.prems(2) Cons.prems(3)]
  show ?case
    using Cons.IH [OF rest conjunct1 [OF step] conjunct2 [OF step]] by simp
qed

lemma chunk_finish_bounds:
  assumes "\<forall>c \<in> set (fst st). min_chunk_size \<le> word_count c \<and> word_count c \<le> max_chunk_size"
    and "word_count (snd st) \<le> max_chunk_size"
  shows "(\<forall>c \<in> set (butlast (chunk_finish min_chunk_size st)).
            min_chunk_size \<le> word_count c \<and> word_count c \<le> max_chunk_size) \<and>
         (1 < length (chunk_finish min_chunk_size st)
            \<longrightarrow> min_chunk_size \<le> word_count (last (chunk_finish min_chunk_size st)))"
proof -
  have b: "\<forall>c \<in> set (butlast (fst st)).
             min_chunk_size \<le> word_count c \<and> word_count c \<le> max_chunk_size"
    using assms(1) by (auto dest: in_set_butlastD)
  show ?thesis
  proof (cases "fst st = []")
    case True
    then show ?thesis
      by (auto simp: chunk_finish_def Let_def)
  next
    case False
    then have l: "min_chunk_size \<le> word_count (last (fst st))"
      using assms(1) by simp
    have j: "min_chunk_size \<le> word_count (last (fst st) @ CHR '' '' # snd st)"
      using l word_count_nonneg [of "snd st"] by (simp add: word_count_join)
    show ?thesis
      using assms b l j False
      by (auto simp: chunk_finish_def Let_def word_count_strip butlast_append)
  qed
qed

text \<open>
  C3, with the side condition the code needs: when \<open>1 \<le> min_chunk_size \<le> max_chunk_size\<close>
  and no sentence has more than \<open>max_chunk_size - min_chunk_size + 1\<close> words, every chunk
  that \<open>chunk_text\<close> returns, except possibly the last, has between \<open>min_chunk_size\<close> and
  \<open>max_chunk_size\<close> words, and the last chunk has at least \<open>min_chunk_size\<close> words unless
  it is the only chunk.
\<close>

theorem chunk_text_size_invariant:
  assumes "1 \<le> min_chunk_size" and "min_chunk_size \<le> max_chunk_size"
    and "\<forall>s \<in> set (sent_tokenize text). word_count s \<le> max_chunk_size - min_chunk_size + 1"
  shows "(\<forall>c \<in> set (butlast (chunk_text sent_tokenize text min_chunk_size max_chunk_size)).
            min_chunk_size \<le> word_count c \<and> word_count c \<le> max_chunk_size) \<and>
         (1 < length (chunk_text sent_tokenize text min_chunk_size max_chunk_size)
            \<longrightarrow> min_chunk_size
                  \<le> word_count (last (chunk_text sent_tokenize text min_chunk_size max_chunk_size)))"
proof -
  have wc0: "word_count [] = 0"
    by (simp add: word_count_def py_split_def)
  have start: "word_count (snd (([], []) :: string list \<times> string)) \<le> max_chunk_size"
    using assms(1,2) wc0 by simp
  have none: "\<forall>c \<in> set (fst (([], []) :: string list \<times> string)).
      min_chunk_size \<le> word_count c \<and> word_count c \<le> max_chunk_size"
    by simp
  note loop = chunk_loop_bounds [OF assms(1,2) assms(3) none start]
  show ?thesis
    unfolding chunk_text_def
    by (rule chunk_finish_bounds [OF conjunct1 [OF loop] conjunct2 [OF loop]])
qed

theorem chunk_text_size_invariant_witness:
  "(1::int) \<le> 2 \<and> (2::int) \<le> 3 \<and>
   list_all (\<lambda>s. word_count s \<le> 3 - 2 + 1) [''One two.'', ''Three four.'', ''Five.''] \<and>
   chunk_text (\<lambda>t. [''One two.'', ''Three four.'', ''Five.'']) ''One two. Three four. Five.'' 2 3
     = [''One two.'', ''Three four. Five.''] \<and>
   list_all (\<lambda>c. 2 \<le> word_count c \<and> word_count c \<le> 3)
     (butlast (chunk_text (\<lambda>t. [''One two.'', ''Three four.'', ''Five.''])
        ''One two. Three four. Five.'' 2 3)) \<and>
   1 < length (chunk_text (\<lambda>t. [''One two.'', ''Three four.'', ''Five.''])
        ''One two. Three four. Five.'' 2 3) \<and>
   2 \<le> word_count (last (chunk_text (\<lambda>t. [''One two.'', ''Three four.'', ''Five.''])
        ''One two. Three four. Five.'' 2 3))"
proof -
  let ?tok = "\<lambda>t::string. [''One two.'', ''Three four.'', ''Five.'']"
  let ?cs = "chunk_text ?tok ''One two. Three four. Five.'' 2 3"
  have h: "\<forall>s \<in> set (?tok ''One two. Three four. Five.''). word_count s \<le> 3 - 2 + 1"
    by code_simp
  have v: "?cs = [''One two.'', ''Three four. Five.'']"
    by code_simp
  have len: "1 < length ?cs"
    using v by simp
  have inv: "(\<forall>c \<in> set (butlast ?cs). 2 \<le> word_count c \<and> word_count c \<le> 3) \<and>
      (1 < length ?cs \<longrightarrow> 2 \<le> word_count (last ?cs))"
    by (rule chunk_text_size_invariant [of 2 3 ?tok "''One two. Three four. Five.''", OF _ _ h]) simp_all
  show ?thesis
    using inv h v len by (simp only: list_all_iff) simp
qed

text \<open>
  C3 as stated fails: with minimum 1 and maximum 2, the sentences \<open>One two three.\<close> and
  \<open>Four.\<close> give two chunks, and the first one, which is not the last, has three words.
\<close>

theorem chunk_text_max_size_counterexample:
  "chunk_text (\<lambda>t. [''One two three.'', ''Four.'']) ''One two three. Four.'' 1 2
     = [''One two three.'', ''Four.'']
   \<and> \<not> word_count (hd (chunk_text (\<lambda>t. [''One two three.'', ''Four.''])
                ''One two three. Four.'' 1 2)) \<le> 2"
  by (simp add: chunk_text_def chunk_step_def chunk_finish_def Let_def word_count_def
      py_split_def py_strip_def py_space_def)

section \<open>rag_pipeline.py: detect_chapters\<close>

text \<open>\<open>s[a:b]\<close> for indices that are not negative: both ends are clamped to the length.\<close>

definition py_slice :: "'a list \<Rightarrow> nat \<Rightarrow> nat \<Rightarrow> 'a list" where
  "py_slice s a b = drop a (take b s)"

text \<open>The seven heading patterns, in the order of \<open>all_patterns\<close>: the three Bengali
  ones, then \<open>Chapter\<close>, \<open>CHAPTER\<close>, \<open>Unit\<close> and \<open>Lesson\<close> followed by digits.\<close>

datatype pattern =
  Bn_chapter_bn_digits | Bn_lesson_bn_digits | Bn_chapter_digits
  | En_Chapter | En_CHAPTER | En_Unit | En_Lesson

definition all_patterns :: "pattern list" where
  "all_patterns = [Bn_chapter_bn_digits, Bn_lesson_bn_digits, Bn_chapter_digits,
     En_Chapter, En_CHAPTER, En_Unit, En_Lesson]"

record chapter_match =
  m_start :: nat
  m_end :: nat
  m_text :: string
  full_line :: string

record segment =
  title :: string
  start_pos :: nat
  end_pos :: nat
  content :: string

text \<open>One entry of \<open>chapter_matches\<close>, from a match's \<open>(start, end)\<close>.\<close>

definition mk_match :: "string \<Rightarrow> nat \<times> nat \<Rightarrow> chapter_match" where
  "mk_match text m =
     \<lparr>m_start = fst m, m_end = snd m,
      m_text = py_slice text (fst m) (snd m),
      full_line = takeWhile (\<lambda>c. c \<noteq> CHR 0x0A) (py_slice text (fst m - 50) (snd m + 100))\<rparr>"

text \<open>
  The regular-expression engine is a parameter: \<open>finditer p text\<close> is the list of
  \<open>(start, end)\<close> of the matches of pattern \<open>p\<close> (case-insensitive), in order.
  \<open>list.sort\<close> is stable, as \<open>sort_key\<close> is.
\<close>

definition chapter_matches :: "(pattern \<Rightarrow> string \<Rightarrow> (nat \<times> nat) list) \<Rightarrow> string \<Rightarrow> chapter_match list" where
  "chapter_matches finditer text =
     sort_key m_start (concat (map (\<lambda>p. map (mk_match text) (finditer p text)) all_patterns))"

text \<open>The loop over \<open>enumerate(chapter_matches)\<close>: the next match, when there is one,
  gives the end of the segment.\<close>

fun extract_chapters :: "string \<Rightarrow> chapter_match list \<Rightarrow> segment list" where
  "extract_chapters text [] = []"
| "extract_chapters text (m # rest) =
     (let start_pos = m_start m;
          end_pos = (case rest of [] \<Rightarrow> length text | n # _ \<Rightarrow> m_start n)
      in \<lparr>title = py_strip (full_line m), start_pos = start_pos, end_pos = end_pos,
           content = py_strip (py_slice text start_pos end_pos)\<rparr>
         # extract_chapters text rest)"

text \<open>\<open>subject\<close> is optional; \<open>None\<close> and the empty string are both false.\<close>

definition detect_chapters ::
  "(pattern \<Rightarrow> string \<Rightarrow> (nat \<times> nat) list) \<Rightarrow> string \<Rightarrow> string option \<Rightarrow> segment list" where
  "detect_chapters finditer text subject =
     (let ms = chapter_matches finditer text
      in if ms = []
         then [\<lparr>title = (case subject of
                   Some s \<Rightarrow> (if s \<noteq> [] then s @ '' - Complete Text'' else ''Complete Text'')
                 | None \<Rightarrow> ''Complete Text''),
                start_pos = 0, end_pos = length text, content = text\<rparr>]
         else extract_chapters text ms)"

lemma extract_chapters_length: "length (extract_chapters text ms) = length ms"
  by (induction ms) (auto simp: Let_def)

lemma extract_chapters_nth:
  "i < length ms \<Longrightarrow>
   start_pos (extract_chapters text ms ! i) = m_start (ms ! i) \<and>
   end_pos (extract_chapters text ms ! i)
     = (if i + 1 < length ms then m_start (ms ! (i + 1)) else length text) \<and>
   content (extract_chapters text ms ! i)
     = py_strip (py_slice text (m_start (ms ! i))
         (if i + 1 < length ms then m_start (ms ! (i + 1)) else length text))"
proof (induction ms arbitrary: i)
  case Nil
  then show ?case by simp
next
  case (Cons m rest)
  show ?case
  proof (cases i)
    case 0
    then show ?thesis by (cases rest) (auto simp: Let_def)
  next
    case (Suc j)
    then have "j < length rest" using Cons.prems by simp
    from Cons.IH [OF this] show ?thesis using Suc by (simp add: Let_def)
  qed
qed

text \<open>
  C8: the match positions are sorted ascending; segment \<open>i\<close> starts at match \<open>i\<close> and
  ends where match \<open>i + 1\<close> starts, or at the end of the text for the last one, its
  content being that slice of the text (stripped); and when nothing matches there is
  exactly one segment, from 0 to \<open>len(text)\<close>, holding the whole text under a generic title.
\<close>

theorem detect_chapters_segments:
  "sorted (map m_start (chapter_matches finditer text)) \<and>
   (chapter_matches finditer text \<noteq> [] \<longrightarrow>
      length (detect_chapters finditer text subject) = length (chapter_matches finditer text) \<and>
      (\<forall>i < length (chapter_matches finditer text).
         start_pos (detect_chapters finditer text subject ! i)
           = m_start (chapter_matches finditer text ! i) \<and>
         end_pos (detect_chapters finditer text subject ! i)
           = (if i + 1 < length (chapter_matches finditer text)
              then m_start (chapter_matches finditer text ! (i + 1)) else length text) \<and>
         content (detect_chapters finditer text subject ! i)
           = py_strip (py_slice text (start_pos (detect_chapters finditer text subject ! i))
               (end_pos (detect_chapters finditer text subject ! i))))) \<and>
   (chapter_matches finditer text = [] \<longrightarrow>
      detect_chapters finditer text subject
        = [\<lparr>title = (if subject = None \<or> subject = Some [] then ''Complete Text''
                       else the subject @ '' - Complete Text''),
            start_pos = 0, end_pos = length text, content = text\<rparr>])"
proof (intro conjI impI)
  show "sorted (map m_start (chapter_matches finditer text))"
    by (simp add: chapter_matches_def)
next
  assume ne: "chapter_matches finditer text \<noteq> []"
  then show "length (detect_chapters finditer text subject) = length (chapter_matches finditer text)"
    by (simp add: detect_chapters_def extract_chapters_length)
  show "\<forall>i < length (chapter_matches finditer text).
         start_pos (detect_chapters finditer text subject ! i)
           = m_start (chapter_matches finditer text ! i) \<and>
         end_pos (detect_chapters finditer text subject ! i)
           = (if i + 1 < length (chapter_matches finditer text)
              then m_start (chapter_matches finditer text ! (i + 1)) else length text) \<and>
         content (detect_chapters finditer text subject ! i)
           = py_strip (py_slice text (start_pos (detect_chapters finditer text subject ! i))
               (end_pos (detect_chapters finditer text subject ! i)))"
    using ne extract_chapters_nth [of _ "chapter_matches finditer text" "text"]
    by (simp add: detect_chapters_def)
next
  assume "chapter_matches finditer text = []"
  then show "detect_chapters finditer text subject
        = [\<lparr>title = (if subject = None \<or> subject = Some [] then ''Complete Text''
                       else the subject @ '' - Complete Text''),
            start_pos = 0, end_pos = length text, content = text\<rparr>]"
    by (cases subject) (auto simp: detect_chapters_def)
qed

text \<open>A stand-in for the regular-expression engine on the text
  \<open>Chapter 1 abc Chapter 2 def\<close>: with \<open>re.IGNORECASE\<close> the patterns \<open>Chapter\<close> and
  \<open>CHAPTER\<close> both match at 0 and at 14.\<close>

definition demo_finditer :: "pattern \<Rightarrow> string \<Rightarrow> (nat \<times> nat) list" where
  "demo_finditer p text = (if p = En_Chapter \<or> p = En_CHAPTER then [(0, 9), (14, 23)] else [])"

theorem detect_chapters_segments_witness:
  "chapter_matches demo_finditer ''Chapter 1 abc Chapter 2 def'' \<noteq> [] \<and>
   (1::nat) < length (chapter_matches demo_finditer ''Chapter 1 abc Chapter 2 def'') \<and>
   start_pos (detect_chapters demo_finditer ''Chapter 1 abc Chapter 2 def'' None ! 1) = 0 \<and>
   end_pos (detect_chapters demo_finditer ''Chapter 1 abc Chapter 2 def'' None ! 1) = 14 \<and>
   content (detect_chapters demo_finditer ''Chapter 1 abc Chapter 2 def'' None ! 1)
     = ''Chapter 1 abc'' \<and>
   chapter_matches (\<lambda>p t. []) ''no heading'' = [] \<and>
   detect_chapters (\<lambda>p t. []) ''no heading'' None
     = [\<lparr>title = ''Complete Text'', start_pos = 0, end_pos = 10, content = ''no heading''\<rparr>]"
proof -
  let ?T = "''Chapter 1 abc Chapter 2 def''"
  let ?ms = "chapter_matches demo_finditer ?T"
  let ?dc = "detect_chapters demo_finditer ?T None"
  have len: "length ?ms = 4" by code_simp
  have ne: "?ms \<noteq> []" using len by auto
  have m1: "m_start (?ms ! 1) = 0" by code_simp
  have m2: "m_start (?ms ! (1 + 1)) = 14" by code_simp
  have sl: "py_strip (py_slice ?T 0 14) = ''Chapter 1 abc''" by code_simp
  have e: "chapter_matches (\<lambda>p t. []) ''no heading'' = []" by code_simp
  have seg: "start_pos (?dc ! 1) = m_start (?ms ! 1) \<and>
      end_pos (?dc ! 1) = (if 1 + 1 < length ?ms then m_start (?ms ! (1 + 1)) else length ?T) \<and>
      content (?dc ! 1) = py_strip (py_slice ?T (start_pos (?dc ! 1)) (end_pos (?dc ! 1)))"
    using detect_chapters_segments [of demo_finditer ?T None] ne len by simp
  have s1: "start_pos (?dc ! 1) = 0" using seg m1 by simp
  have e1: "end_pos (?dc ! 1) = 14" using seg m2 len by simp
  have c1: "content (?dc ! 1) = ''Chapter 1 abc''" using seg s1 e1 sl by simp
  have z: "detect_chapters (\<lambda>p t. []) ''no heading'' None
     = [\<lparr>title = ''Complete Text'', start_pos = 0, end_pos = 10, content = ''no heading''\<rparr>]"
    using detect_chapters_segments [of "\<lambda>p t. []" "''no heading''" None] e by simp
  show ?thesis using ne len s1 e1 c1 e z by simp
qed

section \<open>chapter_pdf_manager.py: extract_text_chunks\<close>

text \<open>\<open>sep.join(xs)\<close>.\<close>

fun py_join :: "string \<Rightarrow> string list \<Rightarrow> string" where
  "py_join sep [] = []"
| "py_join sep [x] = x"
| "py_join sep (x # y # ys) = x @ sep @ py_join sep (y # ys)"

text \<open>\<open>xs[k:]\<close> for an integer \<open>k\<close>: a negative \<open>k\<close> counts from the end, and both cases
  are clamped to the list.\<close>

definition py_from :: "'a list \<Rightarrow> int \<Rightarrow> 'a list" where
  "py_from xs k = (if 0 \<le> k then drop (nat k) xs else drop (length xs - nat (- k)) xs)"

text \<open>
  An opened PDF is the list of its pages' texts, as \<open>page.get_text()\<close> returns them.
  The loop \<open>for page_num in range(min(doc.page_count, 50))\<close> reads these pages.
\<close>

definition pages_processed :: "string list \<Rightarrow> string list" where
  "pages_processed pages = map (\<lambda>page_num. pages ! page_num) [0..<min (length pages) 50]"

record chunker =
  chunks :: "string list"
  current_chunk :: "string list"
  current_length :: int

text \<open>
  The loop body. The overlap is the slice \<open>current_chunk[-overlap//10:]\<close>, which Python
  reads as \<open>current_chunk[(-overlap)//10:]\<close> with floor division, while the test before
  it compares the length with \<open>overlap//10\<close>.
\<close>

definition word_step :: "int \<Rightarrow> int \<Rightarrow> chunker \<Rightarrow> string \<Rightarrow> chunker" where
  "word_step chunk_size overlap st word =
     (if current_length st + int (length word) > chunk_size \<and> current_chunk st \<noteq> []
      then let chunk_text = py_join '' '' (current_chunk st);
               chunks' = (if length (py_strip chunk_text) > 50
                          then chunks st @ [chunk_text] else chunks st);
               overlap_words = (if int (length (current_chunk st)) > overlap div 10
                                then py_from (current_chunk st) ((- overlap) div 10) else []);
               cc = overlap_words @ [word]
           in \<lparr>chunks = chunks', current_chunk = cc,
               current_length = (\<Sum>w \<leftarrow> cc. int (length w))\<rparr>
      else st\<lparr>current_chunk := current_chunk st @ [word],
              current_length := current_length st + int (length word) + 1\<rparr>)"

text \<open>The loop over the words, left by \<open>break\<close> once there are 100 chunks.\<close>

fun word_loop :: "int \<Rightarrow> int \<Rightarrow> chunker \<Rightarrow> string list \<Rightarrow> chunker" where
  "word_loop chunk_size overlap st [] = st"
| "word_loop chunk_size overlap st (word # ws) =
     (let st' = word_step chunk_size overlap st word
      in if length (chunks st') \<ge> 100 then st' else word_loop chunk_size overlap st' ws)"

text \<open>
  \<open>extract_text_chunks\<close>: \<open>None\<close> stands for a file that PyMuPDF cannot read (the
  exception is caught and the empty list returned). Blank pages are skipped, the others
  joined by newlines, the words packed into chunks of about \<open>chunk_size\<close> characters,
  and at most 50 chunks returned.
\<close>

definition extract_text_chunks :: "string list option \<Rightarrow> int \<Rightarrow> int \<Rightarrow> string list" where
  "extract_text_chunks doc chunk_size overlap =
     (case doc of
        None \<Rightarrow> []
      | Some pages \<Rightarrow>
          (let text_pages = filter (\<lambda>t. py_strip t \<noteq> []) (pages_processed pages);
               full_text = py_join [CHR 0x0A] text_pages;
               words = py_split full_text;
               st = word_loop chunk_size overlap
                      \<lparr>chunks = [], current_chunk = [], current_length = 0\<rparr> words;
               final = (if current_chunk st \<noteq> []
                          \<and> length (py_strip (py_join '' '' (current_chunk st))) > 50
                        then chunks st @ [py_join '' '' (current_chunk st)] else chunks st)
           in take 50 final))"

lemma pages_processed_take: "pages_processed pages = take 50 pages"
  by (auto simp: pages_processed_def list_eq_iff_nth_eq)

lemma sum_word_lengths_nonneg: "0 \<le> (\<Sum>w \<leftarrow> ws. int (length w) + 1)"
  by (induction ws) auto

text \<open>While the characters counted stay within \<open>chunk_size\<close>, the loop only collects
  the words.\<close>

lemma word_loop_collects:
  "chunks st = [] \<Longrightarrow>
   current_length st + (\<Sum>w \<leftarrow> ws. int (length w) + 1) \<le> chunk_size + 1 \<Longrightarrow>
   word_loop chunk_size overlap st ws
     = st\<lparr>current_chunk := current_chunk st @ ws,
          current_length := current_length st + (\<Sum>w \<leftarrow> ws. int (length w) + 1)\<rparr>"
proof (induction ws arbitrary: st)
  case Nil
  then show ?case by simp
next
  case (Cons w ws)
  let ?st' = "st\<lparr>current_chunk := current_chunk st @ [w],
                   current_length := current_length st + int (length w) + 1\<rparr>"
  have nn: "0 \<le> (\<Sum>x \<leftarrow> ws. int (length x) + 1)"
    by (rule sum_word_lengths_nonneg)
  have noflush: "\<not> (current_length st + int (length w) > chunk_size \<and> current_chunk st \<noteq> [])"
    using Cons.prems(2) nn by simp
  have step: "word_step chunk_size overlap st w = ?st'"
    unfolding word_step_def using noflush by (rule if_not_P)
  have c: "chunks ?st' = []"
    using Cons.prems(1) by simp
  have l: "current_length ?st' + (\<Sum>x \<leftarrow> ws. int (length x) + 1) \<le> chunk_size + 1"
    using Cons.prems(2) by simp
  show ?case
    using Cons.IH [OF c l] step c by (simp add: Let_def add.assoc)
qed

definition page_words :: "string list \<Rightarrow> string list" where
  "page_words pages = py_split (py_join [CHR 0x0A] (filter (\<lambda>t. py_strip t \<noteq> []) pages))"

lemma py_strip_Nil: "py_strip [] = []"
  by (simp add: py_strip_def)

lemma extract_text_chunks_small:
  assumes "(\<Sum>w \<leftarrow> page_words (pages_processed pages). int (length w) + 1) \<le> chunk_size + 1"
  shows "extract_text_chunks (Some pages) chunk_size overlap
           = (if 50 < length (py_strip (py_join '' '' (page_words (pages_processed pages))))
              then [py_join '' '' (page_words (pages_processed pages))] else [])"
proof -
  let ?ws = "page_words (pages_processed pages)"
  let ?st0 = "\<lparr>chunks = [], current_chunk = [], current_length = 0\<rparr> :: chunker"
  have "word_loop chunk_size overlap ?st0 ?ws
      = ?st0\<lparr>current_chunk := current_chunk ?st0 @ ?ws,
             current_length := current_length ?st0 + (\<Sum>w \<leftarrow> ?ws. int (length w) + 1)\<rparr>"
    by (rule word_loop_collects) (use assms in simp_all)
  then have loop: "word_loop chunk_size overlap ?st0 ?ws
      = \<lparr>chunks = [], current_chunk = ?ws,
         current_length = (\<Sum>w \<leftarrow> ?ws. int (length w) + 1)\<rparr>"
    by simp
  show ?thesis
    unfolding extract_text_chunks_def
    using loop by (auto simp: Let_def page_words_def py_strip_Nil)
qed

text \<open>
  C9: for a PDF with more than 50 pages the extraction reads exactly 50 page texts, the
  first 50, and its result is built from them alone: it is the result for the document
  cut after its 50th page, whatever the later pages hold, and when the words of the
  first 50 pages fit into one chunk the result is that chunk, the words of these pages
  joined by blanks (or nothing when that text has at most 50 characters). A document
  that opens is never an error because of its page count.
\<close>

theorem extract_text_chunks_page_cap:
  assumes "50 < length pages"
  shows "length (pages_processed pages) = 50 \<and>
         pages_processed pages = take 50 pages \<and>
         extract_text_chunks (Some pages) chunk_size overlap
           = extract_text_chunks (Some (take 50 pages)) chunk_size overlap \<and>
         ((\<Sum>w \<leftarrow> page_words (take 50 pages). int (length w) + 1) \<le> chunk_size + 1 \<longrightarrow>
            extract_text_chunks (Some pages) chunk_size overlap
              = (if 50 < length (py_strip (py_join '' '' (page_words (take 50 pages))))
                 then [py_join '' '' (page_words (take 50 pages))] else []))"
  using assms extract_text_chunks_small [of pages chunk_size overlap]
  by (simp add: extract_text_chunks_def pages_processed_take)

text \<open>Fifty pages of two words each and a 51st page: the one chunk returned holds the
  hundred words of the first fifty pages and nothing of the last page.\<close>

definition demo_pages :: "string list" where
  "demo_pages = replicate 50 ''Real numbers.'' @ [''Omitted page.'']"

theorem extract_text_chunks_page_cap_witness:
  "50 < length demo_pages \<and>
   length (pages_processed demo_pages) = 50 \<and>
   (\<Sum>w \<leftarrow> page_words (take 50 demo_pages). int (length w) + 1) \<le> 800 + 1 \<and>
   extract_text_chunks (Some demo_pages) 800 50
     = [py_join '' '' (concat (replicate 50 [''Real'', ''numbers.'']))]"
proof -
  have h: "50 < length demo_pages"
    by (simp add: demo_pages_def)
  have w: "page_words (take 50 demo_pages) = concat (replicate 50 [''Real'', ''numbers.''])"
    by code_simp
  have fits: "(\<Sum>w \<leftarrow> page_words (take 50 demo_pages). int (length w) + 1) \<le> 800 + 1"
    unfolding w by code_simp
  have long: "50 < length (py_strip (py_join '' '' (page_words (take 50 demo_pages))))"
    unfolding w by code_simp
  note t = extract_text_chunks_page_cap [OF h, of 800 50]
  have out0: "extract_text_chunks (Some demo_pages) 800 50
      = (if 50 < length (py_strip (py_join '' '' (page_words (take 50 demo_pages))))
         then [py_join '' '' (page_words (take 50 demo_pages))] else [])"
    by (rule mp [OF conjunct2 [OF conjunct2 [OF conjunct2 [OF t]]] fits])
  have out: "extract_text_chunks (Some demo_pages) 800 50
      = [py_join '' '' (page_words (take 50 demo_pages))]"
    using out0 long by (simp only: if_True)
  show ?thesis
    using h conjunct1 [OF t] fits out [unfolded w] by (intro conjI)
qed

section \<open>rag_pipeline.py: search_relevant_chunks and generate_rag_response\<close>

text \<open>
  The external services are parameters. Every call may raise, which is \<open>None\<close>.
  Similarity scores are floats in the source; they are rationals here, and the only
  float the claims read is the constant \<open>0.0\<close>.
\<close>

record chunk_info =
  ci_chunk_id :: string
  score :: rat
  ci_text :: string
  ci_class_level :: string
  ci_subject :: string
  ci_chapter :: string
  page_number :: int
  ci_word_count :: int

record rag_services =
  generate_embedding :: "string \<Rightarrow> rat list option"
  index_query :: "rat list \<Rightarrow> nat \<Rightarrow> (string \<times> string) list \<Rightarrow> chunk_info list option"
  chat_completion :: "string \<Rightarrow> string \<Rightarrow> string option"

datatype rag_call = Embedding_request string | Query_request | Generation_request string string

record rag_response =
  answer :: string
  source_chunks :: "chunk_info list"
  confidence :: rat
  context_used :: "nat option"

text \<open>An optional argument is false when it is \<open>None\<close> or empty.\<close>

definition truthy :: "string option \<Rightarrow> bool" where
  "truthy s = (case s of None \<Rightarrow> False | Some x \<Rightarrow> x \<noteq> [])"

text \<open>How an f-string prints an optional string.\<close>

definition fmt_opt :: "string option \<Rightarrow> string" where
  "fmt_opt s = (case s of None \<Rightarrow> ''None'' | Some x \<Rightarrow> x)"

text \<open>\<open>search_relevant_chunks\<close> returns the matches and the external calls it made; any
  exception gives the empty list.\<close>

definition search_relevant_chunks ::
  "rag_services \<Rightarrow> string \<Rightarrow> string \<Rightarrow> string option \<Rightarrow> string option \<Rightarrow> nat
     \<Rightarrow> chunk_info list \<times> rag_call list" where
  "search_relevant_chunks sv query class_level subject chapter top_k =
     (case generate_embedding sv query of
        None \<Rightarrow> ([], [Embedding_request query])
      | Some query_embedding \<Rightarrow>
          (let filter_dict = [(''class_level'', class_level)]
                 @ (if truthy subject then [(''subject'', the subject)] else [])
                 @ (if truthy chapter then [(''chapter'', the chapter)] else [])
           in case index_query sv query_embedding top_k filter_dict of
                None \<Rightarrow> ([], [Embedding_request query, Query_request])
              | Some matches \<Rightarrow> (matches, [Embedding_request query, Query_request])))"

definition not_covered_answer :: "string \<Rightarrow> string option \<Rightarrow> string" where
  "not_covered_answer class_level subject =
     ''This topic is not covered in your Class '' @ class_level @ '' '' @ fmt_opt subject
       @ '' book. Do you want me to explain from general knowledge?''"

definition error_answer :: string where
  "error_answer = ''I'' @ [CHR 0x27] @ ''m sorry, I encountered an error while processing your question. Please try again.''"

definition system_prompt :: "string \<Rightarrow> string option \<Rightarrow> string \<Rightarrow> string" where
  "system_prompt class_level subject context =
     ''You are an expert AI tutor for Bangladeshi students following NCTB curriculum.'' @ [CHR 0x0A]
     @ ''You are helping a Class '' @ class_level @ '' student with ''
     @ (if truthy subject then the subject else ''their studies'') @ ''.'' @ [CHR 0x0A, CHR 0x0A]
     @ ''Use the following textbook content to answer the student'' @ [CHR 0x27] @ ''s question:''
     @ [CHR 0x0A, CHR 0x0A] @ context @ [CHR 0x0A, CHR 0x0A]
     @ ''Instructions:'' @ [CHR 0x0A]
     @ ''1. Answer based ONLY on the provided textbook content'' @ [CHR 0x0A]
     @ ''2. Provide step-by-step explanations'' @ [CHR 0x0A]
     @ ''3. Use examples from the textbook when available'' @ [CHR 0x0A]
     @ ''4. Explain in both Bengali and English when helpful'' @ [CHR 0x0A]
     @ ''5. If the content doesn'' @ [CHR 0x27] @ ''t fully answer the question, say so clearly'' @ [CHR 0x0A]
     @ ''6. Keep explanations clear and age-appropriate for Class '' @ class_level @ '' students''
     @ [CHR 0x0A]"

text \<open>\<open>generate_rag_response\<close> returns the response and the external calls made. A
  failing generation call is caught and gives the apology.\<close>

definition generate_rag_response ::
  "rag_services \<Rightarrow> string \<Rightarrow> string \<Rightarrow> string option \<Rightarrow> string option
     \<Rightarrow> rag_response \<times> rag_call list" where
  "generate_rag_response sv query class_level subject chapter =
     (let found = search_relevant_chunks sv query class_level subject chapter 5;
          relevant_chunks = fst found
      in if relevant_chunks = []
         then (\<lparr>answer = not_covered_answer class_level subject, source_chunks = [],
                 confidence = 0, context_used = None\<rparr>, snd found)
         else
           (let context = py_join [CHR 0x0A, CHR 0x0A] (map ci_text relevant_chunks);
                prompt = system_prompt class_level subject context
            in case chat_completion sv prompt query of
                 None \<Rightarrow> (\<lparr>answer = error_answer, source_chunks = [], confidence = 0,
                            context_used = None\<rparr>,
                          snd found @ [Generation_request prompt query])
               | Some a \<Rightarrow>
                   (\<lparr>answer = a, source_chunks = relevant_chunks,
                     confidence = (\<Sum>c \<leftarrow> relevant_chunks. score c)
                                    / of_nat (length relevant_chunks),
                     context_used = Some (length relevant_chunks)\<rparr>,
                    snd found @ [Generation_request prompt query])))"

definition is_generation :: "rag_call \<Rightarrow> bool" where
  "is_generation c = (case c of Generation_request p q \<Rightarrow> True | _ \<Rightarrow> False)"

lemma search_no_generation:
  "filter is_generation (snd (search_relevant_chunks sv query class_level subject chapter k)) = []"
  by (simp add: search_relevant_chunks_def is_generation_def Let_def split: option.splits)

text \<open>
  C7: when the search returns no chunk, \<open>generate_rag_response\<close> returns (it is a total
  function: nothing is raised) the fixed answer
  \<open>This topic is not covered in your Class ... book\<close> with confidence 0.0 and no source
  chunks, and no generation request is among the calls it made.
\<close>

theorem generate_rag_response_no_match:
  assumes "fst (search_relevant_chunks sv query class_level subject chapter 5) = []"
  shows "fst (generate_rag_response sv query class_level subject chapter)
           = \<lparr>answer = not_covered_answer class_level subject, source_chunks = [],
               confidence = 0, context_used = None\<rparr> \<and>
         filter is_generation (snd (generate_rag_response sv query class_level subject chapter)) = []"
  using assms search_no_generation [of sv query class_level subject "chapter" 5]
  by (simp add: generate_rag_response_def Let_def)

text \<open>A vector store with nothing ingested: every query returns no match.\<close>

definition empty_store :: rag_services where
  "empty_store = \<lparr>generate_embedding = (\<lambda>q. Some [0, 1]),
     index_query = (\<lambda>v k f. Some []),
     chat_completion = (\<lambda>p q. Some ''made up'')\<rparr>"

theorem generate_rag_response_no_match_witness:
  "fst (search_relevant_chunks empty_store ''What is a set?'' ''9'' (Some ''Mathematics'') None 5) = [] \<and>
   answer (fst (generate_rag_response empty_store ''What is a set?'' ''9'' (Some ''Mathematics'') None))
     = ''This topic is not covered in your Class 9 Mathematics book. Do you want me to explain from general knowledge?'' \<and>
   confidence (fst (generate_rag_response empty_store ''What is a set?'' ''9'' (Some ''Mathematics'') None)) = 0 \<and>
   source_chunks (fst (generate_rag_response empty_store ''What is a set?'' ''9'' (Some ''Mathematics'') None)) = [] \<and>
   filter is_generation
     (snd (generate_rag_response empty_store ''What is a set?'' ''9'' (Some ''Mathematics'') None)) = []"
proof -
  have h: "fst (search_relevant_chunks empty_store ''What is a set?'' ''9'' (Some ''Mathematics'') None 5) = []"
    by (simp add: search_relevant_chunks_def empty_store_def truthy_def)
  have a: "not_covered_answer ''9'' (Some ''Mathematics'')
     = ''This topic is not covered in your Class 9 Mathematics book. Do you want me to explain from general knowledge?''"
    by (simp add: not_covered_answer_def fmt_opt_def)
  show ?thesis
    using generate_rag_response_no_match [OF h] h a by simp
qed

section \<open>chapter_pdf_manager.py: the chapter catalogue\<close>

text \<open>\<open>str(n)\<close> for a Python int.\<close>

fun str_nat :: "nat \<Rightarrow> string" where
  "str_nat n = (if n < 10 then [char_of (48 + n)] else str_nat (n div 10) @ [char_of (48 + n mod 10)])"

definition str_int :: "int \<Rightarrow> string" where
  "str_int i = (if i < 0 then ''-'' @ str_nat (nat (- i)) else str_nat (nat i))"

text \<open>\<open>sub in s\<close> on strings.\<close>

fun starts_with :: "string \<Rightarrow> string \<Rightarrow> bool" where
  "starts_with [] s = True"
| "starts_with (p # ps) [] = False"
| "starts_with (p # ps) (c # cs) = (p = c \<and> starts_with ps cs)"

fun py_in :: "string \<Rightarrow> string \<Rightarrow> bool" where
  "py_in sub [] = (sub = [])"
| "py_in sub (c # cs) = (starts_with sub (c # cs) \<or> py_in sub cs)"

text \<open>
  \<open>NCTB_CHAPTERS\<close>, in the order of the dictionary. The Bengali display strings
  (\<open>name\<close>, \<open>chapterNumber\<close>) are left out: nothing modelled here reads them.
\<close>

record chapter_info =
  englishName :: string
  chapter_number :: nat

definition NCTB_CHAPTERS :: "(string \<times> chapter_info) list" where
  "NCTB_CHAPTERS =
    [(''real_numbers'', \<lparr>englishName = ''Real Numbers'', chapter_number = 1\<rparr>),
     (''sets_functions'', \<lparr>englishName = ''Sets and Functions'', chapter_number = 2\<rparr>),
     (''algebraic_expressions'', \<lparr>englishName = ''Algebraic Expressions'', chapter_number = 3\<rparr>),
     (''indices_logarithms'', \<lparr>englishName = ''Indices and Logarithms'', chapter_number = 4\<rparr>),
     (''linear_equations'', \<lparr>englishName = ''Linear Equations in One Variable'', chapter_number = 5\<rparr>),
     (''lines_angles_triangles'', \<lparr>englishName = ''Lines, Angles and Triangles'', chapter_number = 6\<rparr>),
     (''practical_geometry'', \<lparr>englishName = ''Practical Geometry'', chapter_number = 7\<rparr>),
     (''circles'', \<lparr>englishName = ''Circles'', chapter_number = 8\<rparr>),
     (''trigonometric_ratios'', \<lparr>englishName = ''Trigonometric Ratios'', chapter_number = 9\<rparr>),
     (''distance_height'', \<lparr>englishName = ''Distance and Height'', chapter_number = 10\<rparr>),
     (''algebraic_ratios'', \<lparr>englishName = ''Algebraic Ratios and Proportions'', chapter_number = 11\<rparr>),
     (''simultaneous_equations'',
        \<lparr>englishName = ''Simultaneous Linear Equations in Two Variables'', chapter_number = 12\<rparr>),
     (''finite_series'', \<lparr>englishName = ''Finite Series'', chapter_number = 13\<rparr>),
     (''ratio_similarity_symmetry'',
        \<lparr>englishName = ''Ratio, Similarity and Symmetry'', chapter_number = 14\<rparr>),
     (''area_theorems'',
        \<lparr>englishName = ''Area Related Theorems and Constructions'', chapter_number = 15\<rparr>),
     (''mensuration'', \<lparr>englishName = ''Mensuration'', chapter_number = 16\<rparr>),
     (''statistics'', \<lparr>englishName = ''Statistics'', chapter_number = 17\<rparr>),
     (''real_numbers_advanced'', \<lparr>englishName = ''Real Numbers (Advanced)'', chapter_number = 1\<rparr>)]"

definition get_chapters_for_class :: "int \<Rightarrow> (string \<times> chapter_info) list" where
  "get_chapters_for_class class_level =
     (if class_level = 9 then filter (\<lambda>kv. \<not> py_in ''advanced'' (fst kv)) NCTB_CHAPTERS
      else if class_level = 10 then NCTB_CHAPTERS
      else [])"

definition is_valid_chapter_for_class :: "string \<Rightarrow> int \<Rightarrow> bool" where
  "is_valid_chapter_for_class chapter_id class_level =
     (chapter_id \<in> set (map fst (get_chapters_for_class class_level)))"

section \<open>chapter_pdf_manager.py: the manager, its state and the services it calls\<close>

text \<open>
  A vector of the Pinecone index: its id and the metadata the filters read. The
  embedding values are opaque and not modelled; the display fields of the metadata
  (\<open>chapter_name\<close>, \<open>bengali_name\<close>, \<open>upload_date\<close>) are left out.
\<close>

record vector_meta =
  v_class_level :: int
  v_chapter_id :: string
  chunk_index :: nat
  v_text :: string

type_synonym vector = "string \<times> vector_meta"

text \<open>One record of \<open>chapter_metadata[class_N][chapter_id]\<close>.\<close>

record chapter_meta =
  filename :: string
  local_path :: string
  firebase_url :: "string option"
  firebase_path :: "string option"
  file_hash :: string
  text_chunks_count :: nat

text \<open>The calls to the external services, in the order they are made.\<close>

datatype call =
  Embedding_call nat string
  | Upsert_call "string list"
  | Delete_call "string list"
  | Query_call nat
  | Extract_call string
  | Publish_call string

text \<open>
  The state an upload reads and writes: the metadata dictionary, the Pinecone index (an
  association list from ids to metadata, in the order a query returns matches), the
  local files, and the log of external calls.
\<close>

record manager =
  chapter_metadata :: "int \<times> string \<Rightarrow> chapter_meta option"
  index :: "vector list"
  files :: "string \<Rightarrow> nat list option"
  calls :: "call list"

text \<open>
  The services, as oracles: which clients are initialised, and for each external call
  whether it raises. \<open>sha256_hex\<close> is the digest, \<open>open_pdf\<close> is PyMuPDF on a file's
  bytes, \<open>publish\<close> is the upload to Firebase Storage (Admin SDK, then signed URL),
  giving the public URL.
\<close>

record services =
  openai_client :: bool
  pinecone_client :: bool
  firebase_initialized :: bool
  embedding_fails :: "nat \<Rightarrow> string \<Rightarrow> bool"
  upsert_fails :: "string list \<Rightarrow> bool"
  query_fails :: "int \<Rightarrow> string \<Rightarrow> bool"
  delete_fails :: "string list \<Rightarrow> bool"
  save_fails :: bool
  read_fails :: bool
  move_fails :: bool
  sha256_hex :: "nat list \<Rightarrow> string"
  open_pdf :: "nat list \<Rightarrow> string list option"
  publish :: "string \<Rightarrow> string \<Rightarrow> string option"
  blob_delete_fails :: bool

subsection \<open>The Pinecone index\<close>

fun upsert_one :: "vector \<Rightarrow> vector list \<Rightarrow> vector list" where
  "upsert_one v [] = [v]"
| "upsert_one v (w # ws) = (if fst w = fst v then v # ws else w # upsert_one v ws)"

definition index_upsert :: "vector list \<Rightarrow> vector list \<Rightarrow> vector list" where
  "index_upsert vectors idx = foldl (\<lambda>i v. upsert_one v i) idx vectors"

definition index_delete :: "string list \<Rightarrow> vector list \<Rightarrow> vector list" where
  "index_delete ids idx = filter (\<lambda>v. fst v \<notin> set ids) idx"

text \<open>A query with the filter \<open>class_level == c, chapter_id == ch\<close> and \<open>top_k\<close>.\<close>

definition index_query_chapter :: "vector list \<Rightarrow> int \<Rightarrow> string \<Rightarrow> nat \<Rightarrow> vector list" where
  "index_query_chapter idx class_level chapter_id top_k =
     take top_k (filter (\<lambda>v. v_class_level (snd v) = class_level \<and> v_chapter_id (snd v) = chapter_id) idx)"

definition log_call :: "call \<Rightarrow> manager \<Rightarrow> manager" where
  "log_call c st = st\<lparr>calls := calls st @ [c]\<rparr>"

subsection \<open>create_embeddings\<close>

definition chunk_id :: "int \<Rightarrow> string \<Rightarrow> nat \<Rightarrow> string" where
  "chunk_id class_level chapter_id i =
     str_int class_level @ ''_'' @ chapter_id @ ''_chunk_'' @ str_nat i"

definition mk_vector :: "int \<Rightarrow> string \<Rightarrow> nat \<Rightarrow> string \<Rightarrow> vector" where
  "mk_vector class_level chapter_id i chunk =
     (chunk_id class_level chapter_id i,
      \<lparr>v_class_level = class_level, v_chapter_id = chapter_id, chunk_index = i,
       v_text = take 500 chunk\<rparr>)"

text \<open>
  One round of the loop over \<open>enumerate(text_chunks)\<close>, on the pending batch \<open>vectors\<close>
  and the state. A failing embedding call skips the chunk. A failing upsert of a full
  batch is caught by the same handler, which leaves the batch as it is.
\<close>

definition embed_step ::
  "services \<Rightarrow> int \<Rightarrow> string \<Rightarrow> vector list \<times> manager \<Rightarrow> nat \<times> string \<Rightarrow> vector list \<times> manager" where
  "embed_step sv class_level chapter_id acc ic =
     (let vectors = fst acc; i = fst ic; chunk = snd ic;
          st = log_call (Embedding_call i (take 1000 chunk)) (snd acc)
      in if embedding_fails sv i (take 1000 chunk) then (vectors, st)
         else
           (let vectors' = vectors @ [mk_vector class_level chapter_id i chunk]
            in if length vectors' \<ge> 10
               then (let st' = log_call (Upsert_call (map fst vectors')) st
                     in if upsert_fails sv (map fst vectors') then (vectors', st')
                        else ([], st'\<lparr>index := index_upsert vectors' (index st')\<rparr>))
               else (vectors', st)))"

definition create_embeddings ::
  "services \<Rightarrow> manager \<Rightarrow> string list \<Rightarrow> int \<Rightarrow> string \<Rightarrow> bool \<times> manager" where
  "create_embeddings sv st text_chunks class_level chapter_id =
     (if \<not> openai_client sv \<or> \<not> pinecone_client sv then (False, st)
      else
        (let acc = foldl (embed_step sv class_level chapter_id) ([], st)
                     (zip [0..<length text_chunks] text_chunks);
             vectors = fst acc; st1 = snd acc
         in if vectors \<noteq> []
            then (let st2 = log_call (Upsert_call (map fst vectors)) st1
                  in if upsert_fails sv (map fst vectors) then (False, st2)
                     else (True, st2\<lparr>index := index_upsert vectors (index st2)\<rparr>))
            else (True, st1)))"

subsection \<open>Existence check and deletion of a chapter's chunks\<close>

definition check_chapter_exists_in_pinecone ::
  "services \<Rightarrow> manager \<Rightarrow> int \<Rightarrow> string \<Rightarrow> bool \<times> manager" where
  "check_chapter_exists_in_pinecone sv st class_level chapter_id =
     (if \<not> pinecone_client sv then (False, st)
      else
        (let st' = log_call (Query_call 1) st
         in if query_fails sv class_level chapter_id then (False, st')
            else (index_query_chapter (index st') class_level chapter_id 1 \<noteq> [], st')))"

text \<open>The loop \<open>for i in range(10)\<close> of \<open>delete_existing_chapter_chunks\<close>; the first
  argument is the number of rounds left. Any exception returns \<open>False\<close>.\<close>

fun delete_batches ::
  "nat \<Rightarrow> services \<Rightarrow> manager \<Rightarrow> int \<Rightarrow> string \<Rightarrow> string list \<Rightarrow> bool \<times> manager" where
  "delete_batches 0 sv st class_level chapter_id all_ids = (all_ids \<noteq> [], st)"
| "delete_batches (Suc n) sv st class_level chapter_id all_ids =
     (let st1 = log_call (Query_call 100) st
      in if query_fails sv class_level chapter_id then (False, st1)
         else
           (let matches = index_query_chapter (index st1) class_level chapter_id 100
            in if matches = [] then (all_ids \<noteq> [], st1)
               else
                 (let batch_ids = map fst matches;
                      st2 = log_call (Delete_call batch_ids) st1
                  in if delete_fails sv batch_ids then (False, st2)
                     else delete_batches n sv (st2\<lparr>index := index_delete batch_ids (index st2)\<rparr>)
                            class_level chapter_id (all_ids @ batch_ids))))"

definition delete_existing_chapter_chunks ::
  "services \<Rightarrow> manager \<Rightarrow> int \<Rightarrow> string \<Rightarrow> bool \<times> manager" where
  "delete_existing_chapter_chunks sv st class_level chapter_id =
     (if \<not> pinecone_client sv then (False, st)
      else delete_batches 10 sv st class_level chapter_id [])"

subsection \<open>upload_chapter_pdf\<close>

text \<open>
  The dictionaries \<open>upload_chapter_pdf\<close> returns, one constructor for each \<open>return\<close>:
  \<^item> \<open>Invalid_chapter valid_chapters\<close>, \<open>Invalid_class\<close>, \<open>Hash_failed\<close>, \<open>Save_failed\<close>,
    \<open>Extract_failed\<close>, \<open>Embeddings_failed\<close>: \<open>success\<close> is false, with an error message;
  \<open>Raised\<close> is the handler of the outer \<open>try\<close>;
  \<^item> \<open>Skipped_identical file_hash chunks_count firebase_url\<close> (action
    \<open>skipped_identical_file\<close>) and \<open>Skipped_same_content\<close> (action \<open>skipped_same_content\<close>):
    \<open>success\<close> and \<open>duplicate_detected\<close> are true;
  \<^item> \<open>Confirmation_required existing_hash new_hash\<close>: \<open>success\<close> is false and
    \<open>requires_confirmation\<close> true;
  \<^item> \<open>Uploaded chunks_created firebase_url\<close>: the full processing succeeded.
\<close>

datatype upload_result =
  Invalid_chapter "string list"
  | Invalid_class
  | Hash_failed
  | Skipped_identical string nat "string option"
  | Skipped_same_content string nat "string option"
  | Confirmation_required "string option" string
  | Save_failed
  | Extract_failed
  | Embeddings_failed
  | Uploaded nat "string option"
  | Raised

fun success :: "upload_result \<Rightarrow> bool" where
  "success (Skipped_identical h n u) = True"
| "success (Skipped_same_content h n u) = True"
| "success (Uploaded n u) = True"
| "success r = False"

fun duplicate_detected :: "upload_result \<Rightarrow> bool" where
  "duplicate_detected (Skipped_identical h n u) = True"
| "duplicate_detected (Skipped_same_content h n u) = True"
| "duplicate_detected r = False"

fun requires_confirmation :: "upload_result \<Rightarrow> bool" where
  "requires_confirmation (Confirmation_required e n) = True"
| "requires_confirmation r = False"

fun chunks_created :: "upload_result \<Rightarrow> nat option" where
  "chunks_created (Skipped_identical h n u) = Some n"
| "chunks_created (Skipped_same_content h n u) = Some n"
| "chunks_created (Uploaded n u) = Some n"
| "chunks_created r = None"

fun existing_chunks :: "upload_result \<Rightarrow> nat option" where
  "existing_chunks (Skipped_identical h n u) = Some n"
| "existing_chunks (Skipped_same_content h n u) = Some n"
| "existing_chunks r = None"

text \<open>The file names: \<open>secure_filename\<close> leaves \<open>class_N_chapter.pdf\<close> as it is for the
  chapter ids of the catalogue.\<close>

definition pdf_filename :: "int \<Rightarrow> string \<Rightarrow> string" where
  "pdf_filename class_level chapter_id = ''class_'' @ str_int class_level @ ''_'' @ chapter_id @ ''.pdf''"

definition temp_path_of :: "int \<Rightarrow> string \<Rightarrow> string" where
  "temp_path_of class_level chapter_id = ''/tmp/temp_'' @ pdf_filename class_level chapter_id"

definition local_path_of :: "int \<Rightarrow> string \<Rightarrow> string" where
  "local_path_of class_level chapter_id = ''data/chapters/'' @ pdf_filename class_level chapter_id"

definition firebase_path_of :: "int \<Rightarrow> string \<Rightarrow> string" where
  "firebase_path_of class_level chapter_id =
     ''chapters/class_'' @ str_int class_level @ ''/'' @ chapter_id @ ''.pdf''"

definition calculate_file_hash :: "services \<Rightarrow> nat list \<Rightarrow> string option" where
  "calculate_file_hash sv bytes = (if read_fails sv then None else Some (sha256_hex sv bytes))"

definition remove_file :: "string \<Rightarrow> manager \<Rightarrow> manager" where
  "remove_file path st = st\<lparr>files := (files st)(path := None)\<rparr>"

text \<open>
  The branch for an identical file: the chunks are kept, and when the record has no
  Firebase URL yet and Firebase is initialised, only the publication of the stored file
  is tried again.
\<close>

definition skip_identical ::
  "services \<Rightarrow> manager \<Rightarrow> int \<Rightarrow> string \<Rightarrow> string \<Rightarrow> chapter_meta \<Rightarrow> upload_result \<times> manager" where
  "skip_identical sv st class_level chapter_id h existing_metadata =
     (let chunks_count = text_chunks_count existing_metadata;
          url = firebase_url existing_metadata;
          lp = local_path existing_metadata
      in if \<not> truthy url \<and> firebase_initialized sv \<and> lp \<noteq> [] \<and> files st lp \<noteq> None
         then (let fp = firebase_path_of class_level chapter_id;
                   st1 = log_call (Publish_call fp) st;
                   url' = (case publish sv lp fp of Some u \<Rightarrow> Some u | None \<Rightarrow> url);
                   st2 = st1\<lparr>chapter_metadata := (chapter_metadata st1)
                           ((class_level, chapter_id) \<mapsto>
                              existing_metadata\<lparr>firebase_url := url', firebase_path := Some fp\<rparr>)\<rparr>
               in (Skipped_identical h chunks_count url', st2))
         else (Skipped_identical h chunks_count url, st))"

text \<open>
  The full processing, from the move of the file to its final place on: extraction,
  embeddings, publication, and the new metadata record.
\<close>

definition process_upload ::
  "services \<Rightarrow> manager \<Rightarrow> nat list \<Rightarrow> int \<Rightarrow> string \<Rightarrow> string \<Rightarrow> upload_result \<times> manager" where
  "process_upload sv st bytes class_level chapter_id h =
     (if move_fails sv then (Save_failed, st)
      else
        (let lp = local_path_of class_level chapter_id;
             st1 = (remove_file (temp_path_of class_level chapter_id) st)
                     \<lparr>files := (files (remove_file (temp_path_of class_level chapter_id) st))
                                 (lp \<mapsto> bytes)\<rparr>;
             st2 = log_call (Extract_call lp) st1;
             text_chunks = extract_text_chunks (open_pdf sv bytes) 800 50
         in if text_chunks = [] then (Extract_failed, st2)
            else
              (let emb = create_embeddings sv st2 text_chunks class_level chapter_id
               in if \<not> fst emb then (Embeddings_failed, snd emb)
                  else
                    (let fp = firebase_path_of class_level chapter_id;
                         st3 = (if firebase_initialized sv
                                then log_call (Publish_call fp) (snd emb) else snd emb);
                         url = (if firebase_initialized sv then publish sv lp fp else None);
                         st4 = st3\<lparr>chapter_metadata := (chapter_metadata st3)
                                 ((class_level, chapter_id) \<mapsto>
                                    \<lparr>filename = pdf_filename class_level chapter_id,
                                     local_path = lp, firebase_url = url,
                                     firebase_path = (if firebase_initialized sv then Some fp else None),
                                     file_hash = h,
                                     text_chunks_count = length text_chunks\<rparr>)\<rparr>
                     in (Uploaded (length text_chunks) url, st4)))))"

text \<open>
  \<open>upload_chapter_pdf\<close>. In the branch for a chapter that exists in Pinecone without
  \<open>force_reupload\<close>, a changed hash is only logged, and the \<open>return\<close> of the dictionary
  with \<open>requires_confirmation\<close> stands after the \<open>return\<close> of the \<open>elif\<close> branch, where
  control never arrives. The result of \<open>delete_existing_chapter_chunks\<close> is dropped.
\<close>

definition upload_chapter_pdf ::
  "services \<Rightarrow> manager \<Rightarrow> nat list \<Rightarrow> int \<Rightarrow> string \<Rightarrow> bool \<Rightarrow> upload_result \<times> manager" where
  "upload_chapter_pdf sv st bytes class_level chapter_id force_reupload =
     (if \<not> is_valid_chapter_for_class chapter_id class_level
        then (Invalid_chapter (map fst (get_chapters_for_class class_level)), st)
      else if class_level \<noteq> 9 \<and> class_level \<noteq> 10 then (Invalid_class, st)
      else if save_fails sv then (Raised, st)
      else
        (let tp = temp_path_of class_level chapter_id;
             st1 = st\<lparr>files := (files st)(tp \<mapsto> bytes)\<rparr>
         in case calculate_file_hash sv bytes of
              None \<Rightarrow> (Hash_failed, remove_file tp st1)
            | Some h \<Rightarrow>
                if h = [] then (Hash_failed, remove_file tp st1)
                else
                  (let existing_metadata = chapter_metadata st1 (class_level, chapter_id);
                       existing_hash = map_option file_hash existing_metadata
                   in if existing_hash = Some h \<and> \<not> force_reupload
                      then skip_identical sv (remove_file tp st1) class_level chapter_id h
                             (the existing_metadata)
                      else
                        (let ex = check_chapter_exists_in_pinecone sv st1 class_level chapter_id;
                             chapter_exists = fst ex; st2 = snd ex
                         in if chapter_exists \<and> \<not> force_reupload
                               \<and> \<not> (truthy existing_hash \<and> existing_hash \<noteq> Some h)
                               \<and> existing_hash = Some h
                            then (Skipped_same_content h (text_chunks_count (the existing_metadata))
                                    (firebase_url (the existing_metadata)),
                                  remove_file tp st2)
                            else
                              (let st3 = (if chapter_exists \<or> force_reupload
                                          then snd (delete_existing_chapter_chunks sv st2
                                                      class_level chapter_id)
                                          else st2)
                               in process_upload sv st3 bytes class_level chapter_id h)))))"

subsection \<open>delete_chapter\<close>

text \<open>\<open>range(1000)  # Max chunks\<close>\<close>

definition max_chunks :: nat where
  "max_chunks = 1000"

definition delete_chapter :: "services \<Rightarrow> manager \<Rightarrow> int \<Rightarrow> string \<Rightarrow> bool \<times> manager" where
  "delete_chapter sv st class_level chapter_id =
     (let chunk_ids = map (chunk_id class_level chapter_id) [0..<max_chunks];
          st1 = (if pinecone_client sv then log_call (Delete_call chunk_ids) st else st)
      in if pinecone_client sv \<and> delete_fails sv chunk_ids then (False, st1)
         else
           (let st2 = (if pinecone_client sv
                       then st1\<lparr>index := index_delete chunk_ids (index st1)\<rparr> else st1)
            in if firebase_initialized sv \<and> blob_delete_fails sv then (False, st2)
               else
                 (case chapter_metadata st2 (class_level, chapter_id) of
                    None \<Rightarrow> (True, st2)
                  | Some metadata \<Rightarrow>
                      (True, (remove_file (local_path metadata) st2)
                               \<lparr>chapter_metadata :=
                                  (chapter_metadata (remove_file (local_path metadata) st2))
                                    ((class_level, chapter_id) := None)\<rparr>))))"

section \<open>The class-level gate\<close>

lemma chapters_other_class:
  "class_level \<noteq> 9 \<Longrightarrow> class_level \<noteq> 10 \<Longrightarrow> get_chapters_for_class class_level = []"
  by (simp add: get_chapters_for_class_def)

text \<open>
  C10: for a class level other than 9 and 10 the catalogue is empty, no chapter id is
  valid, and \<open>upload_chapter_pdf\<close> returns the failure for an invalid chapter with the
  state as it was: no file is saved, no service is called, nothing is written. Class 9
  has the chapters whose id does not contain \<open>advanced\<close>, the first seventeen; class 10
  has all of them, \<open>real_numbers_advanced\<close> included.
\<close>

theorem class_level_gate:
  "(class_level \<noteq> 9 \<and> class_level \<noteq> 10 \<longrightarrow>
      get_chapters_for_class class_level = [] \<and>
      \<not> is_valid_chapter_for_class chapter_id class_level \<and>
      upload_chapter_pdf sv st bytes class_level chapter_id force_reupload
        = (Invalid_chapter [], st) \<and>
      \<not> success (fst (upload_chapter_pdf sv st bytes class_level chapter_id force_reupload))) \<and>
   is_valid_chapter_for_class chapter_id 9
     = (chapter_id \<in> set (map fst NCTB_CHAPTERS) \<and> \<not> py_in ''advanced'' chapter_id) \<and>
   is_valid_chapter_for_class chapter_id 10 = (chapter_id \<in> set (map fst NCTB_CHAPTERS)) \<and>
   map fst (get_chapters_for_class 9)
     = [''real_numbers'', ''sets_functions'', ''algebraic_expressions'', ''indices_logarithms'',
        ''linear_equations'', ''lines_angles_triangles'', ''practical_geometry'', ''circles'',
        ''trigonometric_ratios'', ''distance_height'', ''algebraic_ratios'',
        ''simultaneous_equations'', ''finite_series'', ''ratio_similarity_symmetry'',
        ''area_theorems'', ''mensuration'', ''statistics''] \<and>
   map fst (get_chapters_for_class 10)
     = map fst (get_chapters_for_class 9) @ [''real_numbers_advanced'']"
proof (intro conjI impI)
  assume c: "class_level \<noteq> 9 \<and> class_level \<noteq> 10"
  then show e: "get_chapters_for_class class_level = []"
    by (simp add: chapters_other_class)
  then show v: "\<not> is_valid_chapter_for_class chapter_id class_level"
    by (simp add: is_valid_chapter_for_class_def)
  then show u: "upload_chapter_pdf sv st bytes class_level chapter_id force_reupload
        = (Invalid_chapter [], st)"
    using e by (simp add: upload_chapter_pdf_def)
  then show "\<not> success (fst (upload_chapter_pdf sv st bytes class_level chapter_id force_reupload))"
    by simp
next
  show "is_valid_chapter_for_class chapter_id 9
     = (chapter_id \<in> set (map fst NCTB_CHAPTERS) \<and> \<not> py_in ''advanced'' chapter_id)"
    by (auto simp: is_valid_chapter_for_class_def get_chapters_for_class_def)
next
  show "is_valid_chapter_for_class chapter_id 10 = (chapter_id \<in> set (map fst NCTB_CHAPTERS))"
    by (simp add: is_valid_chapter_for_class_def get_chapters_for_class_def)
next
  show "map fst (get_chapters_for_class 9)
     = [''real_numbers'', ''sets_functions'', ''algebraic_expressions'', ''indices_logarithms'',
        ''linear_equations'', ''lines_angles_triangles'', ''practical_geometry'', ''circles'',
        ''trigonometric_ratios'', ''distance_height'', ''algebraic_ratios'',
        ''simultaneous_equations'', ''finite_series'', ''ratio_similarity_symmetry'',
        ''area_theorems'', ''mensuration'', ''statistics'']"
    by code_simp
next
  show "map fst (get_chapters_for_class 10)
     = map fst (get_chapters_for_class 9) @ [''real_numbers_advanced'']"
    by code_simp
qed

text \<open>An environment in which every service works, with stand-ins for the digest and
  for PyMuPDF: the file A of the single byte 1 has digest \<open>hash_A\<close>, every other file
  digest \<open>hash_B\<close>; each opens as one page with one sentence, which gives one chunk.\<close>

definition demo_services :: services where
  "demo_services =
     \<lparr>openai_client = True, pinecone_client = True, firebase_initialized = False,
      embedding_fails = (\<lambda>i c. False), upsert_fails = (\<lambda>ids. False),
      query_fails = (\<lambda>c ch. False), delete_fails = (\<lambda>ids. False),
      save_fails = False, read_fails = False, move_fails = False,
      sha256_hex = (\<lambda>b. if b = [1] then ''hash_A'' else ''hash_B''),
      open_pdf = (\<lambda>b. if b = [1]
         then Some [''Real numbers include rationals and irrationals. Every rational is real.'']
         else Some [''A set is a collection of distinct objects, and a function maps each element.'']),
      publish = (\<lambda>lp fp. None), blob_delete_fails = False\<rparr>"

definition empty_manager :: manager where
  "empty_manager = \<lparr>chapter_metadata = (\<lambda>k. None), index = [], files = (\<lambda>p. None), calls = []\<rparr>"

theorem class_level_gate_witness:
  "(11::int) \<noteq> 9 \<and> (11::int) \<noteq> 10 \<and>
   upload_chapter_pdf demo_services empty_manager [1] 11 ''real_numbers'' False
     = (Invalid_chapter [], empty_manager) \<and>
   \<not> success (fst (upload_chapter_pdf demo_services empty_manager [1] 11 ''real_numbers'' False)) \<and>
   is_valid_chapter_for_class ''real_numbers_advanced'' 10 \<and>
   \<not> is_valid_chapter_for_class ''real_numbers_advanced'' 9"
proof -
  have a: "is_valid_chapter_for_class ''real_numbers_advanced'' 10" by code_simp
  have b: "\<not> is_valid_chapter_for_class ''real_numbers_advanced'' 9" by code_simp
  show ?thesis
    using class_level_gate [of 11 "''real_numbers''" demo_services empty_manager "[1]" False] a b
    by simp
qed

section \<open>A changed file without force_reupload\<close>

lemma skip_identical_result:
  "\<exists>u. fst (skip_identical sv st class_level chapter_id h m)
         = Skipped_identical h (text_chunks_count m) u"
  by (simp add: skip_identical_def Let_def)

lemma process_upload_result:
  "fst (process_upload sv st bytes class_level chapter_id h)
     \<in> {Save_failed, Extract_failed, Embeddings_failed} \<or>
   (\<exists>u. fst (process_upload sv st bytes class_level chapter_id h)
          = Uploaded (length (extract_text_chunks (open_pdf sv bytes) 800 50)) u)"
  by (simp add: process_upload_def Let_def)

text \<open>No path of \<open>upload_chapter_pdf\<close> returns the dictionary with
  \<open>requires_confirmation\<close>.\<close>

lemma skip_identical_no_confirmation:
  "\<not> requires_confirmation (fst (skip_identical sv st class_level chapter_id h m))"
  using skip_identical_result [of sv st class_level chapter_id h m] by auto

lemma process_upload_no_confirmation:
  "\<not> requires_confirmation (fst (process_upload sv st bytes class_level chapter_id h))"
  using process_upload_result [of sv st bytes class_level chapter_id h] by auto

lemma upload_never_requires_confirmation:
  "\<not> requires_confirmation
       (fst (upload_chapter_pdf sv st bytes class_level chapter_id force_reupload))"
  by (simp add: upload_chapter_pdf_def Let_def skip_identical_no_confirmation
      process_upload_no_confirmation split: option.splits)

text \<open>
  C2 on the code: file A (digest \<open>hash_A\<close>) is uploaded for class 9, \<open>real_numbers\<close>;
  then file B (digest \<open>hash_B\<close>) is uploaded for the same chapter without
  \<open>force_reupload\<close>. The second call does not ask for confirmation: it deletes the chunk
  of A from the index, processes B and reports success, and the record then holds
  \<open>hash_B\<close>.
\<close>

theorem upload_changed_content_replaces:
  "map_option file_hash
     (chapter_metadata (snd (upload_chapter_pdf demo_services empty_manager [1] 9 ''real_numbers'' False))
        (9, ''real_numbers'')) = Some ''hash_A'' \<and>
   fst (upload_chapter_pdf demo_services
          (snd (upload_chapter_pdf demo_services empty_manager [1] 9 ''real_numbers'' False))
          [2] 9 ''real_numbers'' False) = Uploaded 1 None \<and>
   \<not> requires_confirmation
       (fst (upload_chapter_pdf demo_services
          (snd (upload_chapter_pdf demo_services empty_manager [1] 9 ''real_numbers'' False))
          [2] 9 ''real_numbers'' False)) \<and>
   Delete_call [''9_real_numbers_chunk_0'']
     \<in> set (calls (snd (upload_chapter_pdf demo_services
          (snd (upload_chapter_pdf demo_services empty_manager [1] 9 ''real_numbers'' False))
          [2] 9 ''real_numbers'' False))) \<and>
   map_option file_hash
     (chapter_metadata (snd (upload_chapter_pdf demo_services
          (snd (upload_chapter_pdf demo_services empty_manager [1] 9 ''real_numbers'' False))
          [2] 9 ''real_numbers'' False))
        (9, ''real_numbers'')) = Some ''hash_B''"
  by code_simp

section \<open>The ids create_embeddings writes and delete_chapter deletes\<close>

text \<open>The ids sent to \<open>index.upsert\<close>, in order, as the log of calls has them.\<close>

fun upsert_ids_of :: "call \<Rightarrow> string list" where
  "upsert_ids_of (Upsert_call ids) = ids"
| "upsert_ids_of c = []"

definition upserted_ids :: "call list \<Rightarrow> string list" where
  "upserted_ids cs = concat (map upsert_ids_of cs)"

lemma upserted_ids_append: "upserted_ids (xs @ ys) = upserted_ids xs @ upserted_ids ys"
  by (simp add: upserted_ids_def)

lemma embed_step_upserts:
  assumes "\<forall>ids. \<not> upsert_fails sv ids"
  shows "upserted_ids (calls (snd (embed_step sv class_level chapter_id acc ic)))
           @ map fst (fst (embed_step sv class_level chapter_id acc ic))
         = upserted_ids (calls (snd acc)) @ map fst (fst acc)
           @ (if embedding_fails sv (fst ic) (take 1000 (snd ic)) then []
              else [chunk_id class_level chapter_id (fst ic)])"
  using assms
  by (simp add: embed_step_def Let_def log_call_def upserted_ids_def mk_vector_def)

lemma embed_loop_upserts:
  assumes "\<forall>ids. \<not> upsert_fails sv ids"
  shows "upserted_ids (calls (snd (foldl (embed_step sv class_level chapter_id) acc ics)))
           @ map fst (fst (foldl (embed_step sv class_level chapter_id) acc ics))
         = upserted_ids (calls (snd acc)) @ map fst (fst acc)
           @ map (\<lambda>ic. chunk_id class_level chapter_id (fst ic))
               (filter (\<lambda>ic. \<not> embedding_fails sv (fst ic) (take 1000 (snd ic))) ics)"
proof (induction ics arbitrary: acc)
  case Nil
  then show ?case by simp
next
  case (Cons ic ics)
  show ?case
    using Cons.IH [of "embed_step sv class_level chapter_id acc ic"]
      embed_step_upserts [OF assms, of class_level chapter_id acc ic]
    by simp
qed

lemma zip_upt_nth: "zip [0..<length xs] xs = map (\<lambda>i. (i, xs ! i)) [0..<length xs]"
  by (rule nth_equalityI) auto

text \<open>With both clients initialised and no failing upsert, \<open>create_embeddings\<close> returns
  \<open>True\<close> and has sent to the index exactly the ids of the chunks whose embedding call
  succeeded, in order.\<close>

lemma create_embeddings_upserts:
  assumes "openai_client sv" and "pinecone_client sv" and "\<forall>ids. \<not> upsert_fails sv ids"
  shows "fst (create_embeddings sv st text_chunks class_level chapter_id) \<and>
         upserted_ids (calls (snd (create_embeddings sv st text_chunks class_level chapter_id)))
           = upserted_ids (calls st)
             @ map (chunk_id class_level chapter_id)
                 (filter (\<lambda>i. \<not> embedding_fails sv i (take 1000 (text_chunks ! i)))
                    [0..<length text_chunks])"
proof -
  let ?acc = "foldl (embed_step sv class_level chapter_id) ([], st)
                (zip [0..<length text_chunks] text_chunks)"
  have z: "map (\<lambda>ic. chunk_id class_level chapter_id (fst ic))
             (filter (\<lambda>ic. \<not> embedding_fails sv (fst ic) (take 1000 (snd ic)))
                (zip [0..<length text_chunks] text_chunks))
           = map (chunk_id class_level chapter_id)
               (filter (\<lambda>i. \<not> embedding_fails sv i (take 1000 (text_chunks ! i)))
                  [0..<length text_chunks])"
    by (simp add: zip_upt_nth filter_map comp_def)
  have loop: "upserted_ids (calls (snd ?acc)) @ map fst (fst ?acc)
      = upserted_ids (calls st)
        @ map (chunk_id class_level chapter_id)
            (filter (\<lambda>i. \<not> embedding_fails sv i (take 1000 (text_chunks ! i)))
               [0..<length text_chunks])"
    using embed_loop_upserts [OF assms(3), of class_level chapter_id "([], st)"
        "zip [0..<length text_chunks] text_chunks"] z
    by simp
  show ?thesis
    using assms loop
    by (auto simp: create_embeddings_def Let_def log_call_def upserted_ids_append
        upserted_ids_def)
qed

lemma index_delete_gone: "i \<in> set ids \<Longrightarrow> i \<notin> fst ` set (index_delete ids idx)"
  by (auto simp: index_delete_def)

text \<open>
  C4: the id of the vector of chunk \<open>i\<close> is the string
  \<open>{class_level}_{chapter_id}_chunk_{i}\<close>, a function of the three values alone;
  \<open>create_embeddings\<close> sends to the index exactly these ids, for the chunks whose
  embedding succeeded; and \<open>delete_chapter\<close> asks for the deletion of the ids of the
  same format for \<open>i\<close> from 0 to 999, after which none of them is left in the index.
\<close>

theorem deterministic_chunk_ids:
  assumes "openai_client sv" and "pinecone_client sv" and "\<forall>ids. \<not> upsert_fails sv ids"
  shows "chunk_id class_level chapter_id i
           = str_int class_level @ ''_'' @ chapter_id @ ''_chunk_'' @ str_nat i \<and>
         fst (mk_vector class_level chapter_id i chunk) = chunk_id class_level chapter_id i \<and>
         upserted_ids (calls (snd (create_embeddings sv st text_chunks class_level chapter_id)))
           = upserted_ids (calls st)
             @ map (chunk_id class_level chapter_id)
                 (filter (\<lambda>i. \<not> embedding_fails sv i (take 1000 (text_chunks ! i)))
                    [0..<length text_chunks]) \<and>
         Delete_call (map (chunk_id class_level chapter_id) [0..<max_chunks])
           \<in> set (calls (snd (delete_chapter sv st class_level chapter_id))) \<and>
         (fst (delete_chapter sv st class_level chapter_id) \<and> i < max_chunks \<longrightarrow>
            chunk_id class_level chapter_id i
              \<notin> fst ` set (index (snd (delete_chapter sv st class_level chapter_id))))"
proof (intro conjI impI)
  show "chunk_id class_level chapter_id i
           = str_int class_level @ ''_'' @ chapter_id @ ''_chunk_'' @ str_nat i"
    by (simp add: chunk_id_def)
  show "fst (mk_vector class_level chapter_id i chunk) = chunk_id class_level chapter_id i"
    by (simp add: mk_vector_def)
  show "upserted_ids (calls (snd (create_embeddings sv st text_chunks class_level chapter_id)))
           = upserted_ids (calls st)
             @ map (chunk_id class_level chapter_id)
                 (filter (\<lambda>i. \<not> embedding_fails sv i (take 1000 (text_chunks ! i)))
                    [0..<length text_chunks])"
    using create_embeddings_upserts [OF assms] by simp
  show "Delete_call (map (chunk_id class_level chapter_id) [0..<max_chunks])
           \<in> set (calls (snd (delete_chapter sv st class_level chapter_id)))"
    using assms(2)
    by (simp add: delete_chapter_def Let_def log_call_def remove_file_def split: option.splits)
next
  assume a: "fst (delete_chapter sv st class_level chapter_id) \<and> i < max_chunks"
  then have m: "chunk_id class_level chapter_id i
      \<in> set (map (chunk_id class_level chapter_id) [0..<max_chunks])"
    by simp
  have "index (snd (delete_chapter sv st class_level chapter_id))
      = index_delete (map (chunk_id class_level chapter_id) [0..<max_chunks]) (index st)"
    using a assms(2)
    by (auto simp: delete_chapter_def Let_def log_call_def remove_file_def split: option.splits if_splits)
  then show "chunk_id class_level chapter_id i
      \<notin> fst ` set (index (snd (delete_chapter sv st class_level chapter_id)))"
    using index_delete_gone [OF m] by simp
qed

theorem deterministic_chunk_ids_witness:
  "openai_client demo_services \<and> pinecone_client demo_services \<and>
   (\<forall>ids. \<not> upsert_fails demo_services ids) \<and>
   chunk_id 9 ''real_numbers'' 12 = ''9_real_numbers_chunk_12'' \<and>
   upserted_ids (calls (snd (create_embeddings demo_services empty_manager
       [''first chunk'', ''second chunk''] 9 ''real_numbers'')))
     = [''9_real_numbers_chunk_0'', ''9_real_numbers_chunk_1''] \<and>
   fst (delete_chapter demo_services
          (snd (create_embeddings demo_services empty_manager
             [''first chunk'', ''second chunk''] 9 ''real_numbers'')) 9 ''real_numbers'') \<and>
   (1::nat) < max_chunks \<and>
   ''9_real_numbers_chunk_1''
     \<notin> fst ` set (index (snd (delete_chapter demo_services
          (snd (create_embeddings demo_services empty_manager
             [''first chunk'', ''second chunk''] 9 ''real_numbers'')) 9 ''real_numbers'')))"
proof -
  let ?st1 = "snd (create_embeddings demo_services empty_manager
             [''first chunk'', ''second chunk''] 9 ''real_numbers'')"
  have c1: "openai_client demo_services" by (simp add: demo_services_def)
  have c2: "pinecone_client demo_services" by (simp add: demo_services_def)
  have c3: "\<forall>ids. \<not> upsert_fails demo_services ids" by (simp add: demo_services_def)
  note t = deterministic_chunk_ids [OF c1 c2 c3]
  have id12: "chunk_id 9 ''real_numbers'' 12 = ''9_real_numbers_chunk_12''"
    using conjunct1 [OF t [where class_level = 9 and chapter_id = "''real_numbers''" and i = 12]]
    by code_simp
  have id1: "chunk_id 9 ''real_numbers'' 1 = ''9_real_numbers_chunk_1''"
    by code_simp
  have ups: "upserted_ids (calls ?st1) = [''9_real_numbers_chunk_0'', ''9_real_numbers_chunk_1'']"
    by code_simp
  have ok: "fst (delete_chapter demo_services ?st1 9 ''real_numbers'')"
    by (simp add: delete_chapter_def Let_def demo_services_def split: option.splits)
  have lt: "(1::nat) < max_chunks" by (simp add: max_chunks_def)
  have gone: "chunk_id 9 ''real_numbers'' 1
      \<notin> fst ` set (index (snd (delete_chapter demo_services ?st1 9 ''real_numbers'')))"
    using t [where class_level = 9 and chapter_id = "''real_numbers''" and i = 1 and st = ?st1]
      ok lt by blast
  show ?thesis
    using c1 c2 c3 id12 ups ok lt gone [unfolded id1] by (intro conjI)
qed

section \<open>What an upload does after the duplicate checks\<close>

lemma valid_chapter_class:
  "is_valid_chapter_for_class chapter_id class_level \<Longrightarrow> class_level = 9 \<or> class_level = 10"
  by (auto simp: is_valid_chapter_for_class_def get_chapters_for_class_def split: if_splits)

text \<open>The state in which the full processing starts: the temporary file is saved, the
  existence of the chapter is queried, and the old chunks are deleted (whatever that
  deletion returns) when the chapter exists or the upload is forced.\<close>

definition replace_state :: "services \<Rightarrow> manager \<Rightarrow> nat list \<Rightarrow> int \<Rightarrow> string \<Rightarrow> bool \<Rightarrow> manager" where
  "replace_state sv st bytes class_level chapter_id force_reupload =
     (let ex = check_chapter_exists_in_pinecone sv
                 (st\<lparr>files := (files st)(temp_path_of class_level chapter_id \<mapsto> bytes)\<rparr>)
                 class_level chapter_id
      in if fst ex \<or> force_reupload
         then snd (delete_existing_chapter_chunks sv (snd ex) class_level chapter_id)
         else snd ex)"

lemma upload_processes:
  assumes "is_valid_chapter_for_class chapter_id class_level"
    and "\<not> save_fails sv" and "\<not> read_fails sv" and "sha256_hex sv bytes \<noteq> []"
    and "force_reupload
         \<or> map_option file_hash (chapter_metadata st (class_level, chapter_id))
             \<noteq> Some (sha256_hex sv bytes)"
  shows "upload_chapter_pdf sv st bytes class_level chapter_id force_reupload
           = process_upload sv (replace_state sv st bytes class_level chapter_id force_reupload)
               bytes class_level chapter_id (sha256_hex sv bytes)"
  using assms valid_chapter_class [OF assms(1)]
  by (auto simp: upload_chapter_pdf_def calculate_file_hash_def replace_state_def Let_def)





section \<open>Failing embedding calls\<close>









section \<open>A failing deletion before a replacement\<close>






section \<open>Uploading the same file again\<close>

lemma skip_identical_effect:
  assumes "chapter_metadata st (class_level, chapter_id) = Some m" and "file_hash m = h"
  shows "\<exists>m'. chapter_metadata (snd (skip_identical sv st class_level chapter_id h m))
             (class_level, chapter_id) = Some m' \<and>
           file_hash m' = h \<and> text_chunks_count m' = text_chunks_count m"
  using assms by (simp add: skip_identical_def Let_def log_call_def)

lemma skip_identical_calls:
  "index (snd (skip_identical sv st class_level chapter_id h m)) = index st \<and>
   (calls (snd (skip_identical sv st class_level chapter_id h m)) = calls st \<or>
    calls (snd (skip_identical sv st class_level chapter_id h m))
      = calls st @ [Publish_call (firebase_path_of class_level chapter_id)])"
  by (simp add: skip_identical_def Let_def log_call_def)

lemma process_upload_records:
  "fst (process_upload sv st bytes class_level chapter_id h) = Uploaded n u \<Longrightarrow>
   \<exists>m. chapter_metadata (snd (process_upload sv st bytes class_level chapter_id h))
          (class_level, chapter_id) = Some m \<and>
       file_hash m = h \<and> text_chunks_count m = n"
  by (simp add: process_upload_def Let_def split: if_splits)

lemma process_upload_success:
  "success (fst (process_upload sv st bytes class_level chapter_id h)) \<Longrightarrow>
   \<exists>n u. fst (process_upload sv st bytes class_level chapter_id h) = Uploaded n u"
  by (simp add: process_upload_def Let_def split: if_splits)

text \<open>After a successful upload the record of the chapter holds the digest of the file
  and the chunk count the call reported.\<close>

lemma upload_success_records:
  assumes "success (fst (upload_chapter_pdf sv st bytes class_level chapter_id force_reupload))"
  shows "is_valid_chapter_for_class chapter_id class_level \<and>
         sha256_hex sv bytes \<noteq> [] \<and>
         (\<exists>m. chapter_metadata
                (snd (upload_chapter_pdf sv st bytes class_level chapter_id force_reupload))
                (class_level, chapter_id) = Some m \<and>
              file_hash m = sha256_hex sv bytes \<and>
              chunks_created
                (fst (upload_chapter_pdf sv st bytes class_level chapter_id force_reupload))
                = Some (text_chunks_count m))"
proof -
  let ?h = "sha256_hex sv bytes"
  let ?tp = "temp_path_of class_level chapter_id"
  let ?st1 = "st\<lparr>files := (files st)(?tp \<mapsto> bytes)\<rparr>"
  let ?up = "upload_chapter_pdf sv st bytes class_level chapter_id force_reupload"
  have v: "is_valid_chapter_for_class chapter_id class_level"
    using assms by (auto simp: upload_chapter_pdf_def split: if_splits)
  have c: "class_level = 9 \<or> class_level = 10"
    by (rule valid_chapter_class [OF v])
  have sf: "\<not> save_fails sv"
    using assms v c by (auto simp: upload_chapter_pdf_def split: if_splits)
  have rf: "\<not> read_fails sv"
    using assms v c sf
    by (auto simp: upload_chapter_pdf_def calculate_file_hash_def Let_def split: if_splits)
  have hn: "?h \<noteq> []"
    using assms v c sf rf
    by (auto simp: upload_chapter_pdf_def calculate_file_hash_def Let_def split: if_splits)
  have rec: "\<exists>m. chapter_metadata (snd ?up) (class_level, chapter_id) = Some m \<and>
       file_hash m = ?h \<and> chunks_created (fst ?up) = Some (text_chunks_count m)"
  proof (cases "map_option file_hash (chapter_metadata st (class_level, chapter_id)) = Some ?h
                \<and> \<not> force_reupload")
    case True
    then obtain m where m: "chapter_metadata st (class_level, chapter_id) = Some m"
        "file_hash m = ?h"
      by auto
    have m1: "chapter_metadata (remove_file ?tp ?st1) (class_level, chapter_id) = Some m"
      using m(1) by (simp add: remove_file_def)
    have up: "?up = skip_identical sv (remove_file ?tp ?st1) class_level chapter_id ?h m"
      using True v c sf rf hn m
      by (auto simp: upload_chapter_pdf_def calculate_file_hash_def Let_def)
    obtain u where res: "fst (skip_identical sv (remove_file ?tp ?st1) class_level chapter_id ?h m)
        = Skipped_identical ?h (text_chunks_count m) u"
      using skip_identical_result by blast
    obtain m' where m': "chapter_metadata
          (snd (skip_identical sv (remove_file ?tp ?st1) class_level chapter_id ?h m))
          (class_level, chapter_id) = Some m'"
        "file_hash m' = ?h" "text_chunks_count m' = text_chunks_count m"
      using skip_identical_effect [OF m1 m(2), of sv] by blast
    show ?thesis
      using up res m' by simp
  next
    case False
    then have ch: "force_reupload
        \<or> map_option file_hash (chapter_metadata st (class_level, chapter_id)) \<noteq> Some ?h"
      by blast
    have up: "?up = process_upload sv (replace_state sv st bytes class_level chapter_id force_reupload)
          bytes class_level chapter_id ?h"
      by (rule upload_processes [OF v sf rf hn ch])
    then obtain n u where r: "fst ?up = Uploaded n u"
      using assms process_upload_success by metis
    show ?thesis
      using process_upload_records [of sv
          "replace_state sv st bytes class_level chapter_id force_reupload"
          bytes class_level chapter_id ?h n u] up r
      by auto
  qed
  show ?thesis using v hn rec by blast
qed

text \<open>An unforced upload of a file whose digest is the recorded one takes the
  identical-file branch.\<close>

lemma upload_identical_skips:
  assumes "is_valid_chapter_for_class chapter_id class_level"
    and "\<not> save_fails sv" and "\<not> read_fails sv" and "sha256_hex sv bytes \<noteq> []"
    and "chapter_metadata st (class_level, chapter_id) = Some m"
    and "file_hash m = sha256_hex sv bytes"
  shows "upload_chapter_pdf sv st bytes class_level chapter_id False
           = skip_identical sv
               (remove_file (temp_path_of class_level chapter_id)
                  (st\<lparr>files := (files st)(temp_path_of class_level chapter_id \<mapsto> bytes)\<rparr>))
               class_level chapter_id (sha256_hex sv bytes) m"
  using assms valid_chapter_class [OF assms(1)]
  by (auto simp: upload_chapter_pdf_def calculate_file_hash_def Let_def)

text \<open>
  C1: a first upload of a file for a chapter succeeds; the same bytes are then uploaded
  again for the same chapter without \<open>force_reupload\<close> (the services of the second call
  may differ, with the same digest function, the file being saved and read). Then the
  recorded fingerprint is the digest of the file; the second call returns the result
  for an identical file, with \<open>success\<close> and \<open>duplicate_detected\<close> true and the chunk
  count of the first call as \<open>chunks_created\<close> and \<open>existing_chunks\<close>; it leaves the
  index as it is and calls no service, except possibly the publication of the stored
  file: no extraction, no embedding call, no upsert.
\<close>

theorem identical_reupload_skipped:
  assumes "upload_chapter_pdf sv st bytes class_level chapter_id force_reupload = (r1, st1)"
    and "success r1"
    and "\<not> save_fails sv'" and "\<not> read_fails sv'"
    and "sha256_hex sv' bytes = sha256_hex sv bytes"
  shows "map_option file_hash (chapter_metadata st1 (class_level, chapter_id))
           = Some (sha256_hex sv' bytes) \<and>
         success (fst (upload_chapter_pdf sv' st1 bytes class_level chapter_id False)) \<and>
         duplicate_detected (fst (upload_chapter_pdf sv' st1 bytes class_level chapter_id False)) \<and>
         chunks_created (fst (upload_chapter_pdf sv' st1 bytes class_level chapter_id False))
           = chunks_created r1 \<and>
         existing_chunks (fst (upload_chapter_pdf sv' st1 bytes class_level chapter_id False))
           = chunks_created r1 \<and>
         index (snd (upload_chapter_pdf sv' st1 bytes class_level chapter_id False)) = index st1 \<and>
         (calls (snd (upload_chapter_pdf sv' st1 bytes class_level chapter_id False)) = calls st1 \<or>
          calls (snd (upload_chapter_pdf sv' st1 bytes class_level chapter_id False))
            = calls st1 @ [Publish_call (firebase_path_of class_level chapter_id)])"
proof -
  let ?h = "sha256_hex sv bytes"
  let ?tp = "temp_path_of class_level chapter_id"
  let ?st2 = "remove_file ?tp (st1\<lparr>files := (files st1)(?tp \<mapsto> bytes)\<rparr>)"
  have s1: "success (fst (upload_chapter_pdf sv st bytes class_level chapter_id force_reupload))"
    using assms(1,2) by simp
  from upload_success_records [OF s1]
  obtain m where v: "is_valid_chapter_for_class chapter_id class_level"
    and hn: "?h \<noteq> []"
    and m: "chapter_metadata st1 (class_level, chapter_id) = Some m"
    and fh: "file_hash m = ?h"
    and cc: "chunks_created r1 = Some (text_chunks_count m)"
    using assms(1) by auto
  have hn': "sha256_hex sv' bytes \<noteq> []" using hn assms(5) by simp
  have fh': "file_hash m = sha256_hex sv' bytes" using fh assms(5) by simp
  have up: "upload_chapter_pdf sv' st1 bytes class_level chapter_id False
      = skip_identical sv' ?st2 class_level chapter_id (sha256_hex sv' bytes) m"
    by (rule upload_identical_skips [OF v assms(3,4) hn' m fh'])
  have m2: "chapter_metadata ?st2 (class_level, chapter_id) = Some m"
    using m by (simp add: remove_file_def)
  obtain u where res: "fst (skip_identical sv' ?st2 class_level chapter_id (sha256_hex sv' bytes) m)
      = Skipped_identical (sha256_hex sv' bytes) (text_chunks_count m) u"
    using skip_identical_result by blast
  have ix: "index ?st2 = index st1" and cl: "calls ?st2 = calls st1"
    by (simp_all add: remove_file_def)
  note sc = skip_identical_calls [of sv' ?st2 class_level chapter_id "sha256_hex sv' bytes" m]
  show ?thesis
    using m fh' up res cc sc ix cl by auto
qed

theorem identical_reupload_skipped_witness:
  "success (fst (upload_chapter_pdf demo_services empty_manager [1] 9 ''real_numbers'' False)) \<and>
   \<not> save_fails demo_services \<and> \<not> read_fails demo_services \<and>
   fst (upload_chapter_pdf demo_services empty_manager [1] 9 ''real_numbers'' False)
     = Uploaded 1 None \<and>
   chunks_created (fst (upload_chapter_pdf demo_services
       (snd (upload_chapter_pdf demo_services empty_manager [1] 9 ''real_numbers'' False))
       [1] 9 ''real_numbers'' False)) = Some 1 \<and>
   duplicate_detected (fst (upload_chapter_pdf demo_services
       (snd (upload_chapter_pdf demo_services empty_manager [1] 9 ''real_numbers'' False))
       [1] 9 ''real_numbers'' False)) \<and>
   calls (snd (upload_chapter_pdf demo_services
       (snd (upload_chapter_pdf demo_services empty_manager [1] 9 ''real_numbers'' False))
       [1] 9 ''real_numbers'' False))
     = calls (snd (upload_chapter_pdf demo_services empty_manager [1] 9 ''real_numbers'' False))"
proof -
  let ?u1 = "upload_chapter_pdf demo_services empty_manager [1] 9 ''real_numbers'' False"
  have r1: "fst ?u1 = Uploaded 1 None" by code_simp
  have e: "?u1 = (fst ?u1, snd ?u1)" by simp
  have s: "success (fst ?u1)" using r1 by simp
  have sf: "\<not> save_fails demo_services" by (simp add: demo_services_def)
  have rf: "\<not> read_fails demo_services" by (simp add: demo_services_def)
  have fb: "\<not> firebase_initialized demo_services" by (simp add: demo_services_def)
  note t = identical_reupload_skipped [OF e s sf rf refl]
  have cc: "chunks_created (fst (upload_chapter_pdf demo_services (snd ?u1) [1] 9
      ''real_numbers'' False)) = Some 1"
    using conjunct1 [OF conjunct2 [OF conjunct2 [OF conjunct2 [OF t]]]] r1 by simp
  have dd: "duplicate_detected (fst (upload_chapter_pdf demo_services (snd ?u1) [1] 9
      ''real_numbers'' False))"
    using conjunct1 [OF conjunct2 [OF conjunct2 [OF t]]] by simp
  have nc: "calls (snd (upload_chapter_pdf demo_services (snd ?u1) [1] 9 ''real_numbers'' False))
      \<noteq> calls (snd ?u1) @ [Publish_call (firebase_path_of 9 ''real_numbers'')]"
    by code_simp
  have cs: "calls (snd (upload_chapter_pdf demo_services (snd ?u1) [1] 9 ''real_numbers'' False))
      = calls (snd ?u1)"
    using conjunct2 [OF conjunct2 [OF conjunct2 [OF conjunct2 [OF conjunct2 [OF conjunct2 [OF t]]]]]] nc
    by blast
  show ?thesis
    using s sf rf r1 cc dd cs by (intro conjI)
qed

end
